theory Spec2Isabelle
  imports Main "HOL-Library.Product_Lexorder" "HOL-Library.Log_Nat"
begin

section \<open>Text\<close>

text \<open>
  A Python \<open>str\<close> is modelled as a \<open>string\<close>; a character is a code point below 256
  (Latin-1). The classes below are the ones Python's \<open>str\<close> methods and the \<open>re\<close>
  module use on that range.
\<close>

definition code :: "char \<Rightarrow> nat" where
  "code c = of_char c"

definition between :: "char \<Rightarrow> char \<Rightarrow> char \<Rightarrow> bool" where
  "between lo hi c = (code lo \<le> code c \<and> code c \<le> code hi)"

text \<open>\<open>str.isspace\<close> on one character; also the class \<open>\s\<close> of a \<open>str\<close> pattern.\<close>

definition is_space :: "char \<Rightarrow> bool" where
  "is_space c = (let n = code c in
     (9 \<le> n \<and> n \<le> 13) \<or> (28 \<le> n \<and> n \<le> 32) \<or> n = 133 \<or> n = 160)"

text \<open>
  Decimal digits (category Nd); also the class \<open>\d\<close> of a \<open>str\<close> pattern. Below code
  256 these are the ten ASCII digits; the decimal digits of other scripts, which Python
  accepts as well, lie beyond the characters of this model.
\<close>

definition is_digit :: "char \<Rightarrow> bool" where
  "is_digit c = between CHR ''0'' CHR ''9'' c"

definition is_upper :: "char \<Rightarrow> bool" where
  "is_upper c = (let n = code c in
     (65 \<le> n \<and> n \<le> 90) \<or> (192 \<le> n \<and> n \<le> 214) \<or> (216 \<le> n \<and> n \<le> 222))"

definition is_lower :: "char \<Rightarrow> bool" where
  "is_lower c = (let n = code c in
     (97 \<le> n \<and> n \<le> 122) \<or> n = 170 \<or> n = 181 \<or> n = 186 \<or>
     (223 \<le> n \<and> n \<le> 246) \<or> (248 \<le> n \<and> n \<le> 255))"

definition is_alpha :: "char \<Rightarrow> bool" where
  "is_alpha c = (is_upper c \<or> is_lower c)"

text \<open>\<open>isdecimal\<close>, \<open>isdigit\<close> (superscripts 1 to 3) or \<open>isnumeric\<close> (the three fractions).\<close>

definition is_numeric :: "char \<Rightarrow> bool" where
  "is_numeric c = (let n = code c in
     is_digit c \<or> n = 178 \<or> n = 179 \<or> n = 185 \<or> (188 \<le> n \<and> n \<le> 190))"

definition is_alnum :: "char \<Rightarrow> bool" where
  "is_alnum c = (is_alpha c \<or> is_numeric c)"

text \<open>\<open>s.isalnum()\<close>, \<open>s.isalpha()\<close>: every character in the class, and at least one.\<close>

definition isalnum :: "string \<Rightarrow> bool" where
  "isalnum s = (s \<noteq> [] \<and> list_all is_alnum s)"

definition isalpha :: "string \<Rightarrow> bool" where
  "isalpha s = (s \<noteq> [] \<and> list_all is_alpha s)"

text \<open>\<open>s.isupper()\<close>: no lowercase character, and at least one uppercase one.\<close>

definition isupper :: "string \<Rightarrow> bool" where
  "isupper s = (list_all (\<lambda>c. \<not> is_lower c) s \<and> list_ex is_upper s)"

definition lower_char :: "char \<Rightarrow> char" where
  "lower_char c = (if is_upper c then char_of (code c + 32) else c)"

definition lower :: "string \<Rightarrow> string" where
  "lower s = map lower_char s"

definition lstrip :: "string \<Rightarrow> string" where
  "lstrip s = dropWhile is_space s"

definition rstrip :: "string \<Rightarrow> string" where
  "rstrip s = rev (dropWhile is_space (rev s))"

definition strip :: "string \<Rightarrow> string" where
  "strip s = rstrip (lstrip s)"

definition digit_val :: "char \<Rightarrow> nat" where
  "digit_val c = code c - 48"

definition digit_char :: "nat \<Rightarrow> char" where
  "digit_char n = char_of (48 + n)"

text \<open>\<open>str(n)\<close> for a natural number: its decimal digits, with no padding.\<close>

function show_nat :: "nat \<Rightarrow> string" where
  "show_nat n = (if n < 10 then [digit_char n] else show_nat (n div 10) @ [digit_char (n mod 10)])"
  by pat_completeness auto
termination
  by (relation "measure id") auto

section \<open>Exceptions\<close>

datatype exn =
    ValueError string
  | KeyError string
  | AttributeError string
  | TypeError string

text \<open>
  The messages are those of CPython 3.11. Two of them are shortened, because the original
  quotes its argument with \<open>repr\<close>: the one of \<open>strptime\<close> for a text that does not
  match the format, and the one of \<open>float\<close>. Their only callers discard the message.
\<close>

definition no_attribute :: "string \<Rightarrow> string \<Rightarrow> exn" where
  "no_attribute type_name attr =
     AttributeError ([CHR 39] @ type_name @ [CHR 39] @ '' object has no attribute '' @
                     [CHR 39] @ attr @ [CHR 39])"

text \<open>\<open>str(e)\<close>, as the f-strings of \<open>validate_row\<close> render a caught exception.\<close>

fun exn_str :: "exn \<Rightarrow> string" where
  "exn_str (ValueError m) = m"
| "exn_str (KeyError k) = [CHR 39] @ k @ [CHR 39]"
| "exn_str (AttributeError m) = m"
| "exn_str (TypeError m) = m"

section \<open>Dates and times\<close>

text \<open>
  A naive \<open>datetime\<close>. The format \<open>%Y-%m-%d %H:%M\<close> never sets seconds or
  microseconds, so they are always zero and left out.
\<close>

record datetime =
  year :: nat
  month :: nat
  day :: nat
  hour :: nat
  minute :: nat

definition dt_key :: "datetime \<Rightarrow> nat \<times> nat \<times> nat \<times> nat \<times> nat" where
  "dt_key d = (year d, month d, day d, hour d, minute d)"

text \<open>Comparison of naive datetimes is lexicographic on the fields.\<close>

definition dt_le :: "datetime \<Rightarrow> datetime \<Rightarrow> bool" where
  "dt_le a b = (dt_key a \<le> dt_key b)"

definition dt_less :: "datetime \<Rightarrow> datetime \<Rightarrow> bool" where
  "dt_less a b = (dt_key a < dt_key b)"

definition is_leap :: "nat \<Rightarrow> bool" where
  "is_leap y = (y mod 4 = 0 \<and> (y mod 100 \<noteq> 0 \<or> y mod 400 = 0))"

definition days_in_month :: "nat \<Rightarrow> nat \<Rightarrow> nat" where
  "days_in_month y m =
     (if m = 2 then (if is_leap y then 29 else 28)
      else if m = 4 \<or> m = 6 \<or> m = 9 \<or> m = 11 then 30 else 31)"

subsection \<open>The regular expression of \<open>strptime\<close>\<close>

text \<open>
  \<open>datetime.strptime(s, "%Y-%m-%d %H:%M")\<close> compiles the format to the regular expression
  \<^verbatim>\<open>(?P<Y>\d\d\d\d)-(?P<m>1[0-2]|0[1-9]|[1-9])-(?P<d>3[0-1]|[1-2]\d|0[1-9]|[1-9]| [1-9])\<close>
  \<^verbatim>\<open>\s+(?P<H>2[0-3]|[0-1]\d|\d):(?P<M>[0-5]\d|\d)\<close>
  (the blank of the format becomes \<^verbatim>\<open>\s+\<close>), matches it at the start of the text with
  a backtracking matcher, and refuses the text when the first match found does not reach
  its end. A matcher returns every way to match, in the order backtracking tries them.
\<close>

type_synonym 'a matcher = "string \<Rightarrow> ('a \<times> string) list"

definition re_class :: "(char \<Rightarrow> bool) \<Rightarrow> char matcher" where
  "re_class P s = (case s of [] \<Rightarrow> [] | c # r \<Rightarrow> if P c then [(c, r)] else [])"

definition re_ret :: "'a \<Rightarrow> 'a matcher" where
  "re_ret a s = [(a, s)]"

definition re_then :: "'a matcher \<Rightarrow> ('a \<Rightarrow> 'b matcher) \<Rightarrow> 'b matcher" where
  "re_then p f s = concat (map (\<lambda>(a, r). f a r) (p s))"

definition re_alt :: "'a matcher \<Rightarrow> 'a matcher \<Rightarrow> 'a matcher" where
  "re_alt p q s = p s @ q s"

text \<open>Two characters of the given classes, read as a two-digit number; one such character.\<close>

definition two :: "(char \<Rightarrow> bool) \<Rightarrow> (char \<Rightarrow> bool) \<Rightarrow> nat matcher" where
  "two P Q = re_then (re_class P) (\<lambda>a. re_then (re_class Q) (\<lambda>b.
     re_ret (10 * digit_val a + digit_val b)))"

definition one :: "(char \<Rightarrow> bool) \<Rightarrow> nat matcher" where
  "one P = re_then (re_class P) (\<lambda>a. re_ret (digit_val a))"

definition lit :: "char \<Rightarrow> char matcher" where
  "lit c = re_class (\<lambda>x. x = c)"

text \<open>\<^verbatim>\<open>\s+\<close>, greedy: the longest run of blanks first, then each shorter one down to one.\<close>

definition re_spaces :: "unit matcher" where
  "re_spaces s = map (\<lambda>n. ((), drop n s)) (rev [1 ..< Suc (length (takeWhile is_space s))])"

text \<open>\<open>re.match\<close>: the first way to match, if there is one.\<close>

definition re_match :: "'a matcher \<Rightarrow> string \<Rightarrow> ('a \<times> string) option" where
  "re_match p s = (case p s of [] \<Rightarrow> None | x # _ \<Rightarrow> Some x)"

definition grp_Y :: "nat matcher" where
  "grp_Y = re_then (re_class is_digit) (\<lambda>a. re_then (re_class is_digit) (\<lambda>b.
     re_then (re_class is_digit) (\<lambda>c. re_then (re_class is_digit) (\<lambda>d.
       re_ret (1000 * digit_val a + 100 * digit_val b + 10 * digit_val c + digit_val d)))))"

definition grp_m :: "nat matcher" where
  "grp_m = re_alt (two (\<lambda>c. c = CHR ''1'') (between CHR ''0'' CHR ''2''))
          (re_alt (two (\<lambda>c. c = CHR ''0'') (between CHR ''1'' CHR ''9''))
                  (one (between CHR ''1'' CHR ''9'')))"

definition grp_d :: "nat matcher" where
  "grp_d = re_alt (two (\<lambda>c. c = CHR ''3'') (between CHR ''0'' CHR ''1''))
          (re_alt (two (between CHR ''1'' CHR ''2'') is_digit)
          (re_alt (two (\<lambda>c. c = CHR ''0'') (between CHR ''1'' CHR ''9''))
          (re_alt (one (between CHR ''1'' CHR ''9''))
                  (re_then (lit CHR '' '') (\<lambda>_. one (between CHR ''1'' CHR ''9''))))))"

definition grp_H :: "nat matcher" where
  "grp_H = re_alt (two (\<lambda>c. c = CHR ''2'') (between CHR ''0'' CHR ''3''))
          (re_alt (two (between CHR ''0'' CHR ''1'') is_digit)
                  (one is_digit))"

definition grp_M :: "nat matcher" where
  "grp_M = re_alt (two (between CHR ''0'' CHR ''5'') is_digit) (one is_digit)"

definition format_regex :: "datetime matcher" where
  "format_regex =
     re_then grp_Y (\<lambda>y. re_then (lit CHR ''-'') (\<lambda>_.
     re_then grp_m (\<lambda>m. re_then (lit CHR ''-'') (\<lambda>_.
     re_then grp_d (\<lambda>d. re_then re_spaces (\<lambda>_.
     re_then grp_H (\<lambda>h. re_then (lit CHR '':'') (\<lambda>_.
     re_then grp_M (\<lambda>mi.
       re_ret \<lparr>year = y, month = m, day = d, hour = h, minute = mi\<rparr>)))))))))"

text \<open>
  \<open>datetime.strptime\<close> with the format \<open>%Y-%m-%d %H:%M\<close>. After the match the fields
  go to the \<open>date\<close> constructor, which refuses year 0 and a day the month does not have.
  Every failure is a \<open>ValueError\<close>.
\<close>

definition strptime :: "string \<Rightarrow> exn + datetime" where
  "strptime s =
     (case re_match format_regex s of
        None \<Rightarrow> Inl (ValueError ''time data does not match format'')
      | Some (d, r) \<Rightarrow>
          if r \<noteq> [] then Inl (ValueError (''unconverted data remains: '' @ r))
          else if year d < 1 then Inl (ValueError ''year 0 is out of range'')
          else if day d > days_in_month (year d) (month d)
            then Inl (ValueError ''day is out of range for month'')
          else Inr d)"

text \<open>
  \<open>d.strftime("%Y-%m-%d %H:%M")\<close>, as CPython 3.11 gives it through the C library of
  Linux: \<open>%Y\<close> is the year as a decimal number with no padding, so that a year below
  1000 comes out on fewer than four digits (\<open>999-12-31 23:00\<close>); \<open>%m\<close>, \<open>%d\<close>, \<open>%H\<close>
  and \<open>%M\<close> are padded with a zero to two digits.
\<close>

definition pad2 :: "nat \<Rightarrow> string" where
  "pad2 n = [digit_char (n div 10 mod 10), digit_char (n mod 10)]"

definition strftime :: "datetime \<Rightarrow> string" where
  "strftime d = show_nat (year d) @ ''-'' @ pad2 (month d) @ ''-'' @ pad2 (day d) @ '' '' @
                pad2 (hour d) @ '':'' @ pad2 (minute d)"

subsection \<open>\<open>parse_iso_datetime\<close>\<close>

text \<open>The exception of line 32, with the trimmed text in its message.\<close>

definition format_error :: "string \<Rightarrow> exn" where
  "format_error s =
     ValueError (''invalid datetime format (expected '' @ [CHR 39] @ ''YYYY-MM-DD HH:MM'' @
                 [CHR 39] @ ''): '' @ s)"

definition parse_iso_datetime :: "string \<Rightarrow> exn + datetime" where
  "parse_iso_datetime s0 =
     (let s = strip s0 in
      if s = [] then Inl (ValueError ''empty datetime'')
      else (case strptime s of
              Inr d \<Rightarrow> Inr d
            | Inl _ \<Rightarrow> Inl (format_error s)))"

section \<open>Floating-point numbers\<close>

text \<open>
  A Python \<open>float\<close> (IEEE 754 binary64): not-a-number, an infinity with its sign, or a
  finite value \<open>m * 2 ^ e\<close> with \<open>0 \<le> m\<close> and its sign (the flag is \<open>True\<close> for
  negative).
\<close>

datatype pyfloat = FNan | FInf bool | FFin bool int int

text \<open>\<open>x <= 0\<close> and \<open>x > 0\<close>; every comparison with not-a-number is false.\<close>

fun float_le0 :: "pyfloat \<Rightarrow> bool" where
  "float_le0 FNan = False"
| "float_le0 (FInf neg) = neg"
| "float_le0 (FFin neg m e) = (neg \<or> m = 0)"

fun float_gt0 :: "pyfloat \<Rightarrow> bool" where
  "float_gt0 FNan = False"
| "float_gt0 (FInf neg) = (\<not> neg)"
| "float_gt0 (FFin neg m e) = (\<not> neg \<and> 0 < m)"

definition round_half_even :: "int \<Rightarrow> int \<Rightarrow> int" where
  "round_half_even n d =
     (let q = n div d; r = n mod d
      in if 2 * r < d then q else if d < 2 * r then q + 1
         else if even q then q else q + 1)"

text \<open>Whether \<open>n / d\<close> is at least \<open>2 ^ e\<close>.\<close>

definition ge_pow2 :: "int \<Rightarrow> int \<Rightarrow> int \<Rightarrow> bool" where
  "ge_pow2 n d e = (if 0 \<le> e then d * 2 ^ nat e \<le> n else d \<le> n * 2 ^ nat (- e))"

text \<open>
  The binary64 value nearest to \<open>n / d\<close>, ties to even: 53 significant bits, the least
  exponent \<open>-1074\<close>, an infinity from \<open>2 ^ 1024\<close> on. \<open>binade n d\<close> is the exponent
  \<open>e\<close> with \<open>2 ^ e \<le> n / d < 2 ^ (e + 1)\<close>, \<open>quantum n d\<close> the exponent of the last
  bit kept. When rounding carries to \<open>2 ^ 53\<close> the result is written with the
  significand \<open>2 ^ 52\<close>, so that a float has one term: a zero is \<open>FFin neg 0 0\<close>, a
  subnormal has the exponent \<open>-1074\<close>, every other value a significand from \<open>2 ^ 52\<close>
  up to \<open>2 ^ 53 - 1\<close>.
\<close>

definition binade :: "int \<Rightarrow> int \<Rightarrow> int" where
  "binade n d = (if ge_pow2 n d (bitlen n - bitlen d) then bitlen n - bitlen d
                 else bitlen n - bitlen d - 1)"

definition quantum :: "int \<Rightarrow> int \<Rightarrow> int" where
  "quantum n d = max (binade n d - 52) (- 1074)"

definition round_at :: "int \<Rightarrow> int \<Rightarrow> int \<Rightarrow> int" where
  "round_at n d p = (if 0 \<le> p then round_half_even n (d * 2 ^ nat p)
                     else round_half_even (n * 2 ^ nat (- p)) d)"

definition pack :: "bool \<Rightarrow> int \<Rightarrow> int \<Rightarrow> pyfloat" where
  "pack neg q p = (if q = 0 then FFin neg 0 0
                   else if 0 \<le> p \<and> 2 ^ 1024 \<le> q * 2 ^ nat p then FInf neg
                   else if q = 2 ^ 53 then FFin neg (2 ^ 52) (p + 1)
                   else FFin neg q p)"

definition nearest_double :: "bool \<Rightarrow> int \<Rightarrow> int \<Rightarrow> pyfloat" where
  "nearest_double neg n d = pack neg (round_at n d (quantum n d)) (quantum n d)"

text \<open>The value of the decimal literal \<open>m * 10 ^ k\<close>.\<close>

definition to_double :: "bool \<Rightarrow> int \<Rightarrow> int \<Rightarrow> pyfloat" where
  "to_double neg m k =
     (if m = 0 then FFin neg 0 0
      else if 0 \<le> k then nearest_double neg (m * 10 ^ nat k) 1
      else nearest_double neg m (10 ^ nat (- k)))"

fun digits_val :: "int \<Rightarrow> string \<Rightarrow> int" where
  "digits_val acc [] = acc"
| "digits_val acc (c # cs) = digits_val (10 * acc + int (digit_val c)) cs"

text \<open>
  Underscores in a numeric literal: one is allowed only between two digits. The result
  is the text without them, or \<open>None\<close>.
\<close>

fun strip_underscores :: "char \<Rightarrow> string \<Rightarrow> string option" where
  "strip_underscores prev [] = (if prev = CHR ''_'' then None else Some [])"
| "strip_underscores prev (c # cs) =
     (if c = CHR ''_'' then
        (if is_digit prev then strip_underscores c cs else None)
      else if prev = CHR ''_'' \<and> \<not> is_digit c then None
      else map_option ((#) c) (strip_underscores c cs))"

definition split_sign :: "string \<Rightarrow> bool \<times> string" where
  "split_sign s = (case s of
       [] \<Rightarrow> (False, [])
     | c # r \<Rightarrow> if c = CHR ''-'' then (True, r) else if c = CHR ''+'' then (False, r)
                else (False, s))"

text \<open>The exponent part: empty, or \<open>e\<close> or \<open>E\<close>, a sign or none, and at least one digit.\<close>

definition exponent :: "string \<Rightarrow> int option" where
  "exponent s = (case s of
       [] \<Rightarrow> Some 0
     | c # r \<Rightarrow>
         if c = CHR ''e'' \<or> c = CHR ''E'' then
           (let (neg, ds) = split_sign r
            in if ds \<noteq> [] \<and> list_all is_digit ds
               then Some (if neg then - digits_val 0 ds else digits_val 0 ds)
               else None)
         else None)"

text \<open>
  The literal after its sign: \<open>inf\<close>, \<open>infinity\<close> or \<open>nan\<close> in any case, or digits
  with an optional point and exponent and at least one digit before the exponent.
\<close>

definition float_body :: "bool \<Rightarrow> string \<Rightarrow> pyfloat option" where
  "float_body neg s =
     (if lower s = ''inf'' \<or> lower s = ''infinity'' then Some (FInf neg)
      else if lower s = ''nan'' then Some FNan
      else
        let ip = takeWhile is_digit s; r1 = dropWhile is_digit s;
            fp = (case r1 of [] \<Rightarrow> [] | c # r \<Rightarrow>
                    if c = CHR ''.'' then takeWhile is_digit r else []);
            r2 = (case r1 of [] \<Rightarrow> [] | c # r \<Rightarrow>
                    if c = CHR ''.'' then dropWhile is_digit r else r1)
        in if ip = [] \<and> fp = [] then None
           else (case exponent r2 of
                   None \<Rightarrow> None
                 | Some x \<Rightarrow> Some (to_double neg (digits_val 0 (ip @ fp)) (x - int (length fp)))))"

text \<open>
  \<open>float(s)\<close> for a \<open>str\<close>. Characters from code 127 on become a blank when they are
  white space and \<open>?\<close> otherwise; underscores are checked and dropped; blanks around the
  literal (codes 9 to 13 and 32) are dropped; what is left must be a literal as a whole.
\<close>

definition is_c_space :: "char \<Rightarrow> bool" where
  "is_c_space c = ((9 \<le> code c \<and> code c \<le> 13) \<or> code c = 32)"

definition to_ascii :: "char \<Rightarrow> char" where
  "to_ascii c = (if code c < 127 then c else if is_space c then CHR '' '' else CHR ''?'')"

definition py_float :: "string \<Rightarrow> exn + pyfloat" where
  "py_float s =
     (case strip_underscores (CHR 0x00) (map to_ascii s) of
        None \<Rightarrow> Inl (ValueError ''could not convert string to float'')
      | Some t \<Rightarrow>
          let u = rev (dropWhile is_c_space (rev (dropWhile is_c_space t)));
              (neg, body) = split_sign u
          in (case float_body neg body of
                None \<Rightarrow> Inl (ValueError ''could not convert string to float'')
              | Some x \<Rightarrow> Inr x))"

section \<open>Values, rows and flights\<close>

text \<open>
  The values of a JSON document and of a flight dictionary. A dictionary is an association
  list in insertion order; a key is looked up with \<open>map_of\<close>.
\<close>

datatype pyval =
    PNone
  | PBool bool
  | PInt int
  | PFloat pyfloat
  | PStr string
  | PList "pyval list"
  | PDict "(string \<times> pyval) list"

text \<open>
  A row of \<open>csv.DictReader\<close>, as the annotation \<open>Dict[str, str]\<close> has it: a column
  holds text, or \<open>None\<close> when the line is shorter than the header.
\<close>

type_synonym row = "(string \<times> string option) list"

type_synonym flight = "(string \<times> pyval) list"

definition REQUIRED_FIELDS :: "string list" where
  "REQUIRED_FIELDS = [''flight_id'', ''origin'', ''destination'', ''departure_datetime'',
                      ''arrival_datetime'', ''price'']"

text \<open>\<open>str(v)\<close> for text or \<open>None\<close>.\<close>

definition str_of :: "string option \<Rightarrow> string" where
  "str_of v = (case v of None \<Rightarrow> ''None'' | Some s \<Rightarrow> s)"

text \<open>\<open>row.get(k, d)\<close>.\<close>

definition row_get :: "row \<Rightarrow> string \<Rightarrow> string option \<Rightarrow> string option" where
  "row_get row k d = (case map_of row k of None \<Rightarrow> d | Some v \<Rightarrow> v)"

text \<open>\<open>f not in row or row[f] is None or str(row[f]).strip() == ""\<close>.\<close>

definition missing :: "row \<Rightarrow> string \<Rightarrow> bool" where
  "missing row f = (case map_of row f of
       None \<Rightarrow> True
     | Some v \<Rightarrow> v = None \<or> strip (str_of v) = [])"

text \<open>\<open>parse_iso_datetime(row[k])\<close>, with the exceptions the subscript and the call can raise.\<close>

definition parse_field :: "row \<Rightarrow> string \<Rightarrow> exn + datetime" where
  "parse_field row k = (case map_of row k of
       None \<Rightarrow> Inl (KeyError k)
     | Some None \<Rightarrow> Inl (no_attribute ''NoneType'' ''strip'')
     | Some (Some s) \<Rightarrow> parse_iso_datetime s)"

text \<open>The loop over \<open>row.items()\<close> that copies the extra columns.\<close>

definition add_extra :: "flight \<Rightarrow> string \<times> string option \<Rightarrow> flight" where
  "add_extra fl kv = (case kv of (k, v) \<Rightarrow>
     if k \<in> set (map fst fl) \<or> v = None then fl
     else let s = strip (str_of v) in if s \<noteq> [] then fl @ [(k, PStr s)] else fl)"

definition validate_row :: "row \<Rightarrow> string \<Rightarrow> nat \<Rightarrow> flight option \<times> string" where
  "validate_row row file lineno =
     (case find (missing row) REQUIRED_FIELDS of
        Some f \<Rightarrow> (None, ''missing required field '' @ [CHR 39] @ f @ [CHR 39])
      | None \<Rightarrow>
     let fid = strip (str_of (row_get row ''flight_id'' (Some []))) in
     if \<not> (2 \<le> length fid \<and> length fid \<le> 8 \<and> isalnum fid)
     then (None, ''flight_id must be 2-8 alphanumeric characters'')
     else
     let origin = strip (str_of (row_get row ''origin'' (Some [])));
         dest = strip (str_of (row_get row ''destination'' (Some []))) in
     if \<not> (length origin = 3 \<and> isalpha origin \<and> isupper origin)
     then (None, ''origin must be 3 uppercase letters'')
     else if \<not> (length dest = 3 \<and> isalpha dest \<and> isupper dest)
     then (None, ''destination must be 3 uppercase letters'')
     else
     (case parse_field row ''departure_datetime'' of
        Inl e \<Rightarrow> (None, ''departure_datetime parse error: '' @ exn_str e)
      | Inr dep \<Rightarrow>
     (case parse_field row ''arrival_datetime'' of
        Inl e \<Rightarrow> (None, ''arrival_datetime parse error: '' @ exn_str e)
      | Inr arr \<Rightarrow>
     if dt_le arr dep
     then (None, ''arrival_datetime must be after departure_datetime'')
     else
     (case py_float (strip (str_of (row_get row ''price'' None))) of
        Inl _ \<Rightarrow> (None, ''price must be a positive float'')
      | Inr price \<Rightarrow>
     if float_le0 price
     then (None, ''price must be a positive number'')
     else
       (Some (foldl add_extra
          [(''flight_id'', PStr fid),
           (''origin'', PStr origin),
           (''destination'', PStr dest),
           (''departure_datetime'', PStr (strftime dep)),
           (''arrival_datetime'', PStr (strftime arr)),
           (''price'', PFloat price)] row), [])))))"

section \<open>Reading the CSV files\<close>

text \<open>
  What opening and reading one path gives: no such file, or the rows the reader yields
  and then, when an exception ends the reading (at \<open>open\<close> or later), its text.
\<close>

datatype source = FileNotFound | Readable "row list" "string option"

text \<open>The truth value of \<open>flight\<close> in \<open>if flight:\<close>: a dictionary that is not empty.\<close>

definition flight_truthy :: "flight option \<Rightarrow> bool" where
  "flight_truthy r = (case r of None \<Rightarrow> False | Some fl \<Rightarrow> fl \<noteq> [])"

text \<open>
  The body of the inner loop. \<open>show_row\<close> is \<open>str\<close> on the row dictionary, a built-in
  taken as a parameter.
\<close>

definition process_row ::
  "(row \<Rightarrow> string) \<Rightarrow> string \<Rightarrow> flight list \<times> string list \<Rightarrow> nat \<times> row \<Rightarrow>
   flight list \<times> string list" where
  "process_row show_row p st lr = (case (st, lr) of ((valid, errors), (lineno, row)) \<Rightarrow>
     (case validate_row row p lineno of (flight, err) \<Rightarrow>
        if flight_truthy flight then (valid @ [the flight], errors)
        else (valid, errors @
               [p @ '':'' @ show_nat lineno @ '': '' @ err @ '' -- '' @ show_row row])))"

text \<open>The body of the outer loop, with its two \<open>except\<close> clauses.\<close>

definition read_source ::
  "(row \<Rightarrow> string) \<Rightarrow> string \<Rightarrow> flight list \<times> string list \<Rightarrow> source \<Rightarrow>
   flight list \<times> string list" where
  "read_source show_row p st src = (case src of
       FileNotFound \<Rightarrow> (fst st, snd st @ [''file not found: '' @ p])
     | Readable rows exc \<Rightarrow>
         let st' = foldl (process_row show_row p) st (zip [2 ..< 2 + length rows] rows)
         in (case exc of
               None \<Rightarrow> st'
             | Some e \<Rightarrow> (fst st', snd st' @ [p @ '': error reading file: '' @ e])))"

text \<open>\<open>fs\<close> is the file system: what each path gives when it is opened and read.\<close>

definition parse_csv_files ::
  "(row \<Rightarrow> string) \<Rightarrow> (string \<Rightarrow> source) \<Rightarrow> string list \<Rightarrow> flight list \<times> string list" where
  "parse_csv_files show_row fs paths =
     foldl (\<lambda>st p. read_source show_row p st (fs p)) ([], []) paths"

section \<open>Queries\<close>

type_synonym query = "(string \<times> pyval) list"

text \<open>\<open>type(v).__name__\<close>.\<close>

fun type_name :: "pyval \<Rightarrow> string" where
  "type_name PNone = ''NoneType''"
| "type_name (PBool b) = ''bool''"
| "type_name (PInt i) = ''int''"
| "type_name (PFloat x) = ''float''"
| "type_name (PStr s) = ''str''"
| "type_name (PList xs) = ''list''"
| "type_name (PDict kvs) = ''dict''"

text \<open>
  \<open>str(v)\<close>: the text itself for a \<open>str\<close>, and \<open>repr(v)\<close> for every other value;
  \<open>repr\<close> is a built-in taken as a parameter.
\<close>

definition py_str :: "(pyval \<Rightarrow> string) \<Rightarrow> pyval \<Rightarrow> string" where
  "py_str rp v = (case v of PStr s \<Rightarrow> s | _ \<Rightarrow> rp v)"

fun truthy :: "pyval \<Rightarrow> bool" where
  "truthy PNone = False"
| "truthy (PBool b) = b"
| "truthy (PInt i) = (i \<noteq> 0)"
| "truthy (PFloat x) = (case x of FFin neg m e \<Rightarrow> m \<noteq> 0 | _ \<Rightarrow> True)"
| "truthy (PStr s) = (s \<noteq> [])"
| "truthy (PList xs) = (xs \<noteq> [])"
| "truthy (PDict kvs) = (kvs \<noteq> [])"

text \<open>\<open>(q.get("filter") or {}).items()\<close>.\<close>

definition filter_items :: "query \<Rightarrow> exn + (string \<times> pyval) list" where
  "filter_items q =
     (let filt = (case map_of q ''filter'' of
                    None \<Rightarrow> PDict []
                  | Some v \<Rightarrow> if truthy v then v else PDict [])
      in case filt of
           PDict kvs \<Rightarrow> Inr kvs
         | _ \<Rightarrow> Inl (no_attribute (type_name filt) ''items''))"

text \<open>\<open>str(f.get(k, "")).lower() == str(v).lower()\<close>.\<close>

definition field_matches :: "(pyval \<Rightarrow> string) \<Rightarrow> string \<Rightarrow> pyval \<Rightarrow> flight \<Rightarrow> bool" where
  "field_matches rp k v f =
     (lower (py_str rp (case map_of f k of None \<Rightarrow> PStr [] | Some x \<Rightarrow> x)) = lower (py_str rp v))"

definition eq_filters :: "(pyval \<Rightarrow> string) \<Rightarrow> (string \<times> pyval) list \<Rightarrow> flight list \<Rightarrow> flight list" where
  "eq_filters rp kvs flights =
     foldl (\<lambda>res kv. case kv of (k, v) \<Rightarrow> filter (field_matches rp k v) res) flights kvs"

text \<open>A list comprehension whose condition can raise: the first exception ends it.\<close>

fun filter_exn :: "('a \<Rightarrow> exn + bool) \<Rightarrow> 'a list \<Rightarrow> exn + 'a list" where
  "filter_exn P [] = Inr []"
| "filter_exn P (x # xs) =
     (case P x of
        Inl e \<Rightarrow> Inl e
      | Inr b \<Rightarrow> (case filter_exn P xs of
                    Inl e \<Rightarrow> Inl e
                  | Inr ys \<Rightarrow> Inr (if b then x # ys else ys)))"

text \<open>\<open>parse_iso_datetime(v)\<close> for a value of any type: only a \<open>str\<close> has \<open>strip\<close>.\<close>

definition parse_value :: "pyval \<Rightarrow> exn + datetime" where
  "parse_value v = (case v of
       PStr s \<Rightarrow> parse_iso_datetime s
     | _ \<Rightarrow> Inl (no_attribute (type_name v) ''strip''))"

text \<open>\<open>parse_iso_datetime(f[k])\<close>.\<close>

definition flight_datetime :: "flight \<Rightarrow> string \<Rightarrow> exn + datetime" where
  "flight_datetime f k = (case map_of f k of
       None \<Rightarrow> Inl (KeyError k)
     | Some v \<Rightarrow> parse_value v)"

text \<open>
  \<open>start, end = v\<close>: a list or a text of two items, or a dictionary of two keys; any
  other length is a \<open>ValueError\<close>, any other type a \<open>TypeError\<close>.
\<close>

definition unpack_length_error :: "nat \<Rightarrow> exn" where
  "unpack_length_error n =
     (if n < 2
      then ValueError (''not enough values to unpack (expected 2, got '' @ show_nat n @ '')'')
      else ValueError ''too many values to unpack (expected 2)'')"

definition unpack2 :: "pyval \<Rightarrow> exn + (pyval \<times> pyval)" where
  "unpack2 v = (case v of
       PList xs \<Rightarrow> (case xs of [a, b] \<Rightarrow> Inr (a, b)
                     | _ \<Rightarrow> Inl (unpack_length_error (length xs)))
     | PStr s \<Rightarrow> (case s of [a, b] \<Rightarrow> Inr (PStr [a], PStr [b])
                   | _ \<Rightarrow> Inl (unpack_length_error (length s)))
     | PDict kvs \<Rightarrow> (case kvs of [a, b] \<Rightarrow> Inr (PStr (fst a), PStr (fst b))
                      | _ \<Rightarrow> Inl (unpack_length_error (length kvs)))
     | _ \<Rightarrow> Inl (TypeError (''cannot unpack non-iterable '' @ type_name v @ '' object'')))"

definition departure_between :: "query \<Rightarrow> flight list \<Rightarrow> exn + flight list" where
  "departure_between q res = (case map_of q ''departure_between'' of
       None \<Rightarrow> Inr res
     | Some v \<Rightarrow>
        (case unpack2 v of Inl e \<Rightarrow> Inl e | Inr (start, end) \<Rightarrow>
        (case parse_value start of Inl e \<Rightarrow> Inl e | Inr start_dt \<Rightarrow>
        (case parse_value end of Inl e \<Rightarrow> Inl e | Inr end_dt \<Rightarrow>
           filter_exn (\<lambda>f. case flight_datetime f ''departure'' of
                             Inl e \<Rightarrow> Inl e
                           | Inr d \<Rightarrow> Inr (dt_le start_dt d \<and> dt_le d end_dt)) res))))"

definition arrival_before :: "query \<Rightarrow> flight list \<Rightarrow> exn + flight list" where
  "arrival_before q res = (case map_of q ''arrival_before'' of
       None \<Rightarrow> Inr res
     | Some v \<Rightarrow>
        (case parse_value v of Inl e \<Rightarrow> Inl e | Inr end_dt \<Rightarrow>
           filter_exn (\<lambda>f. case flight_datetime f ''arrival'' of
                             Inl e \<Rightarrow> Inl e
                           | Inr d \<Rightarrow> Inr (dt_le d end_dt)) res))"

definition arrival_after :: "query \<Rightarrow> flight list \<Rightarrow> exn + flight list" where
  "arrival_after q res = (case map_of q ''arrival_after'' of
       None \<Rightarrow> Inr res
     | Some v \<Rightarrow>
        (case parse_value v of Inl e \<Rightarrow> Inl e | Inr start_dt \<Rightarrow>
           filter_exn (\<lambda>f. case flight_datetime f ''arrival'' of
                             Inl e \<Rightarrow> Inl e
                           | Inr d \<Rightarrow> Inr (dt_le start_dt d)) res))"

definition apply_filters :: "(pyval \<Rightarrow> string) \<Rightarrow> flight list \<Rightarrow> query \<Rightarrow> exn + flight list" where
  "apply_filters rp flights q =
     (case filter_items q of Inl e \<Rightarrow> Inl e | Inr kvs \<Rightarrow>
     (case departure_between q (eq_filters rp kvs flights) of Inl e \<Rightarrow> Inl e | Inr res1 \<Rightarrow>
     (case arrival_before q res1 of Inl e \<Rightarrow> Inl e | Inr res2 \<Rightarrow>
        arrival_after q res2)))"

text \<open>\<open>q.get("name") or f"q{qi}"\<close>.\<close>

definition query_name :: "query \<Rightarrow> nat \<Rightarrow> pyval" where
  "query_name q qi = (case map_of q ''name'' of
       None \<Rightarrow> PStr (''q'' @ show_nat qi)
     | Some v \<Rightarrow> if truthy v then v else PStr (''q'' @ show_nat qi))"

text \<open>The dictionary that \<open>run_queries\<close> appends for one query.\<close>

definition result_entry :: "query \<Rightarrow> nat \<Rightarrow> flight list \<Rightarrow> pyval" where
  "result_entry q qi matched =
     PDict [(''name'', query_name q qi),
            (''count'', PInt (int (length matched))),
            (''results'', PList (map PDict matched))]"

text \<open>
  The loop of \<open>run_queries\<close> from position \<open>qi\<close> on. An entry that is no dictionary has
  no \<open>get\<close>; an exception of \<open>apply_filters\<close> ends the whole run.
\<close>

fun run_loop :: "(pyval \<Rightarrow> string) \<Rightarrow> flight list \<Rightarrow> nat \<Rightarrow> pyval list \<Rightarrow> exn + pyval list" where
  "run_loop rp flights qi [] = Inr []"
| "run_loop rp flights qi (x # xs) =
     (case x of
        PDict q \<Rightarrow>
          (case apply_filters rp flights q of
             Inl e \<Rightarrow> Inl e
           | Inr matched \<Rightarrow>
               (case run_loop rp flights (Suc qi) xs of
                  Inl e \<Rightarrow> Inl e
                | Inr rs \<Rightarrow>
                    Inr (result_entry q qi matched # rs)))
      | _ \<Rightarrow> Inl (no_attribute (type_name x) ''get''))"

text \<open>\<open>run_queries\<close> on the document \<open>data\<close> that \<open>json.load\<close> returned.\<close>

definition run_queries :: "(pyval \<Rightarrow> string) \<Rightarrow> flight list \<Rightarrow> pyval \<Rightarrow> exn + pyval" where
  "run_queries rp flights data = (case data of
       PList qs \<Rightarrow>
         (case run_loop rp flights 1 qs of
            Inl e \<Rightarrow> Inl e
          | Inr rs \<Rightarrow> Inr (PDict [(''queries'', PList rs)]))
     | _ \<Rightarrow> Inl (ValueError ''queries JSON must be a list of query objects''))"

section \<open>The rules of the specification\<close>

text \<open>
  The validation rules as the specification words them, to be compared with what
  \<open>validate_row\<close> does. \<open>sub s i j\<close> is the slice \<open>s[i:j]\<close>, \<open>dec\<close> the number a run
  of digits writes.
\<close>

definition sub :: "string \<Rightarrow> nat \<Rightarrow> nat \<Rightarrow> string" where
  "sub s i j = take (j - i) (drop i s)"

definition dec :: "string \<Rightarrow> nat" where
  "dec s = foldl (\<lambda>a c. 10 * a + digit_val c) 0 s"

definition spec_datetime_value :: "string \<Rightarrow> datetime" where
  "spec_datetime_value s =
     \<lparr>year = dec (sub s 0 4), month = dec (sub s 5 7), day = dec (sub s 8 10),
      hour = dec (sub s 11 13), minute = dec (sub s 14 16)\<rparr>"

text \<open>
  Rule 4, the grammar \<open>YYYY-MM-DD HH:MM\<close>: a 4-digit year, a 2-digit month 01 to 12, a
  2-digit day valid for that month and year, a 2-digit hour 00 to 23, a 2-digit minute
  00 to 59, a single space between date and time, and nothing else.
\<close>

definition spec_datetime :: "string \<Rightarrow> bool" where
  "spec_datetime s =
     (length s = 16 \<and>
      list_all is_digit (sub s 0 4) \<and> s ! 4 = CHR ''-'' \<and>
      list_all is_digit (sub s 5 7) \<and> s ! 7 = CHR ''-'' \<and>
      list_all is_digit (sub s 8 10) \<and> s ! 10 = CHR '' '' \<and>
      list_all is_digit (sub s 11 13) \<and> s ! 13 = CHR '':'' \<and>
      list_all is_digit (sub s 14 16) \<and>
      1 \<le> month (spec_datetime_value s) \<and> month (spec_datetime_value s) \<le> 12 \<and>
      1 \<le> day (spec_datetime_value s) \<and>
      day (spec_datetime_value s) \<le>
        days_in_month (year (spec_datetime_value s)) (month (spec_datetime_value s)) \<and>
      hour (spec_datetime_value s) \<le> 23 \<and> minute (spec_datetime_value s) \<le> 59)"

text \<open>
  The layout of rule 4 without its ranges: sixteen characters, the digits and the four
  separators each in its place.
\<close>

definition spec_shape :: "string \<Rightarrow> bool" where
  "spec_shape s =
     (length s = 16 \<and>
      list_all is_digit (sub s 0 4) \<and> s ! 4 = CHR ''-'' \<and>
      list_all is_digit (sub s 5 7) \<and> s ! 7 = CHR ''-'' \<and>
      list_all is_digit (sub s 8 10) \<and> s ! 10 = CHR '' '' \<and>
      list_all is_digit (sub s 11 13) \<and> s ! 13 = CHR '':'' \<and>
      list_all is_digit (sub s 14 16))"

text \<open>A run of one to \<open>n\<close> digits; a date and time that exists.\<close>

definition digits :: "nat \<Rightarrow> string \<Rightarrow> bool" where
  "digits n s = (1 \<le> length s \<and> length s \<le> n \<and> list_all is_digit s)"

definition real_datetime :: "datetime \<Rightarrow> bool" where
  "real_datetime d =
     (1 \<le> year d \<and> year d \<le> 9999 \<and> 1 \<le> month d \<and> month d \<le> 12 \<and>
      1 \<le> day d \<and> day d \<le> days_in_month (year d) (month d) \<and>
      hour d \<le> 23 \<and> minute d \<le> 59)"

text \<open>The characters a date and time can be written with.\<close>

definition dt_char :: "char \<Rightarrow> bool" where
  "dt_char c = (is_digit c \<or> c = CHR ''-'' \<or> c = CHR '':'' \<or> is_space c)"

text \<open>The trimmed text of a column; empty when the column is absent or \<open>None\<close>.\<close>

definition trimmed :: "row \<Rightarrow> string \<Rightarrow> string" where
  "trimmed row f = (case map_of row f of Some (Some v) \<Rightarrow> strip v | _ \<Rightarrow> [])"

text \<open>Rule 1: the field exists and is not empty after trimming.\<close>

definition spec_present :: "row \<Rightarrow> string \<Rightarrow> bool" where
  "spec_present row f = (case map_of row f of Some (Some v) \<Rightarrow> strip v \<noteq> [] | _ \<Rightarrow> False)"

text \<open>Rule 2: between 2 and 8 characters, each a letter or a digit.\<close>

definition spec_flight_id :: "string \<Rightarrow> bool" where
  "spec_flight_id s = (2 \<le> length s \<and> length s \<le> 8 \<and> list_all (\<lambda>c. is_alpha c \<or> is_digit c) s)"

text \<open>Rule 3: exactly 3 characters, each an uppercase letter.\<close>

definition spec_airport :: "string \<Rightarrow> bool" where
  "spec_airport s = (length s = 3 \<and> list_all is_upper s)"

text \<open>Rule 6: the text parses as a floating-point number that is greater than zero.\<close>

definition spec_price :: "string \<Rightarrow> bool" where
  "spec_price s = (case py_float s of Inl _ \<Rightarrow> False | Inr x \<Rightarrow> float_gt0 x)"

definition spec_rules_1_to_3 :: "row \<Rightarrow> bool" where
  "spec_rules_1_to_3 row =
     (list_all (spec_present row) REQUIRED_FIELDS \<and>
      spec_flight_id (trimmed row ''flight_id'') \<and>
      spec_airport (trimmed row ''origin'') \<and>
      spec_airport (trimmed row ''destination''))"

text \<open>
  The tests of lines 40 to 55 of \<open>validate_row\<close>, all passing: no required field is
  missing, and the trimmed \<open>flight_id\<close>, \<open>origin\<close> and \<open>destination\<close> pass the tests
  on length and character class as the code writes them.
\<close>

definition checks_1_to_3 :: "row \<Rightarrow> bool" where
  "checks_1_to_3 row =
     (list_all (\<lambda>f. \<not> missing row f) REQUIRED_FIELDS \<and>
      2 \<le> length (trimmed row ''flight_id'') \<and> length (trimmed row ''flight_id'') \<le> 8 \<and>
      isalnum (trimmed row ''flight_id'') \<and>
      length (trimmed row ''origin'') = 3 \<and> isalpha (trimmed row ''origin'') \<and>
      isupper (trimmed row ''origin'') \<and>
      length (trimmed row ''destination'') = 3 \<and> isalpha (trimmed row ''destination'') \<and>
      isupper (trimmed row ''destination''))"

text \<open>Rules 1 to 6 together.\<close>

definition spec_valid_row :: "row \<Rightarrow> bool" where
  "spec_valid_row row =
     (spec_rules_1_to_3 row \<and>
      spec_datetime (trimmed row ''departure_datetime'') \<and>
      spec_datetime (trimmed row ''arrival_datetime'') \<and>
      dt_less (spec_datetime_value (trimmed row ''departure_datetime''))
              (spec_datetime_value (trimmed row ''arrival_datetime'')) \<and>
      spec_price (trimmed row ''price''))"

text \<open>
  Batch parsing as the specification words it, source by source: the records of the
  accepted rows in line order, and one error entry for each rejected row in line order,
  followed by one entry for the source when it could not be opened or read to its end.
\<close>

definition numbered :: "row list \<Rightarrow> (nat \<times> row) list" where
  "numbered rows = zip [2 ..< 2 + length rows] rows"

definition accepted :: "string \<Rightarrow> nat \<times> row \<Rightarrow> bool" where
  "accepted p lr = (fst (validate_row (snd lr) p (fst lr)) \<noteq> None)"

definition row_error :: "(row \<Rightarrow> string) \<Rightarrow> string \<Rightarrow> nat \<times> row \<Rightarrow> string" where
  "row_error show_row p lr =
     p @ '':'' @ show_nat (fst lr) @ '': '' @ snd (validate_row (snd lr) p (fst lr)) @
     '' -- '' @ show_row (snd lr)"

definition spec_source_valid :: "string \<Rightarrow> source \<Rightarrow> flight list" where
  "spec_source_valid p src = (case src of
       FileNotFound \<Rightarrow> []
     | Readable rows exc \<Rightarrow>
         map (\<lambda>lr. the (fst (validate_row (snd lr) p (fst lr)))) (filter (accepted p) (numbered rows)))"

definition spec_source_errors :: "(row \<Rightarrow> string) \<Rightarrow> string \<Rightarrow> source \<Rightarrow> string list" where
  "spec_source_errors show_row p src = (case src of
       FileNotFound \<Rightarrow> [''file not found: '' @ p]
     | Readable rows exc \<Rightarrow>
         map (row_error show_row p) (filter (\<lambda>lr. \<not> accepted p lr) (numbered rows)) @
         (case exc of None \<Rightarrow> [] | Some e \<Rightarrow> [p @ '': error reading file: '' @ e]))"

section \<open>Sample data\<close>

text \<open>The rows and records of the repository's tests and of the end-to-end scenarios.\<close>

definition sample_row :: "string \<Rightarrow> string \<Rightarrow> string \<Rightarrow> string \<Rightarrow> row" where
  "sample_row origin dep arr price =
     [(''flight_id'', Some ''AA100''), (''origin'', Some origin), (''destination'', Some ''LAX''),
      (''departure_datetime'', Some dep), (''arrival_datetime'', Some arr),
      (''price'', Some price)]"

definition row_AA100 :: row where
  "row_AA100 = sample_row ''JFK'' ''2025-11-20 08:00'' ''2025-11-20 11:00'' ''199.99''"

definition sample_flight :: "string \<Rightarrow> string \<Rightarrow> string \<Rightarrow> pyfloat \<Rightarrow> flight" where
  "sample_flight origin dep arr price =
     [(''flight_id'', PStr ''AA100''), (''origin'', PStr origin), (''destination'', PStr ''LAX''),
      (''departure_datetime'', PStr dep), (''arrival_datetime'', PStr arr),
      (''price'', PFloat price)]"

definition price_199_99 :: pyfloat where
  "price_199_99 = FFin False 7036522574045512 (- 45)"

definition flight_AA100 :: flight where
  "flight_AA100 = sample_flight ''JFK'' ''2025-11-20 08:00'' ''2025-11-20 11:00'' price_199_99"

definition flight_UA400 :: flight where
  "flight_UA400 =
     [(''flight_id'', PStr ''UA400''), (''origin'', PStr ''SFO''), (''destination'', PStr ''SEA''),
      (''departure_datetime'', PStr ''2025-11-23 07:30''),
      (''arrival_datetime'', PStr ''2025-11-23 09:00'')]"

definition query_november :: query where
  "query_november =
     [(''departure_between'', PList [PStr ''2025-11-01 00:00'', PStr ''2025-11-30 23:59''])]"

definition query_jfk :: query where
  "query_jfk = [(''filter'', PDict [(''origin'', PStr ''jfk'')])]"

text \<open>Rows that one rule rejects, and rows one minute and no minute apart.\<close>

definition row_no_origin :: row where
  "row_no_origin = sample_row [] ''2025-11-21 09:00'' ''2025-11-21 19:00'' ''299.50''"

definition row_one_minute :: row where
  "row_one_minute = sample_row ''JFK'' ''2025-11-20 08:00'' ''2025-11-20 08:01'' ''199.99''"

definition row_same_time :: row where
  "row_same_time = sample_row ''JFK'' ''2025-11-20 08:00'' ''2025-11-20 08:00'' ''199.99''"

definition row_bad_price :: row where
  "row_bad_price = sample_row ''JFK'' ''2025-11-20 08:00'' ''2025-11-20 11:00'' ''abc''"

definition row_nan :: row where
  "row_nan = sample_row ''JFK'' ''2025-11-20 08:00'' ''2025-11-20 11:00'' ''nan''"

text \<open>
  Stand-ins for the built-ins \<open>repr\<close> and \<open>str\<close> of a dictionary, for the examples in
  which no value but text is rendered.
\<close>

definition repr_text :: "pyval \<Rightarrow> string" where
  "repr_text v = ''<repr>''"

definition query_lhr :: query where
  "query_lhr = [(''filter'', PDict [(''origin'', PStr ''LHR'')])]"

definition show_row_text :: "row \<Rightarrow> string" where
  "show_row_text r = ''<row>''"

text \<open>A file system with one file of three rows, as in the end-to-end scenario.\<close>

definition row_arrival_before :: row where
  "row_arrival_before = sample_row ''ATL'' ''2025-11-22 15:00'' ''2025-11-22 14:00'' ''150.00''"

definition sample_fs :: "string \<Rightarrow> source" where
  "sample_fs p = (if p = ''flights.csv''
                  then Readable [row_AA100, row_no_origin, row_arrival_before] None
                  else FileNotFound)"

definition query_all :: query where
  "query_all = [(''name'', PStr ''all'')]"

text \<open>
  Rows for the datetime grammar: the year 0000, padded fields, a \<open>T\<close> between date and
  time, and seconds.
\<close>

definition row_year0 :: row where
  "row_year0 = sample_row ''JFK'' ''0000-01-01 00:00'' ''0000-01-01 00:01'' ''199.99''"

definition row_year999 :: row where
  "row_year999 = sample_row ''JFK'' ''0999-12-31 23:00'' ''1000-01-01 01:00'' ''199.99''"

definition row_padded :: row where
  "row_padded =
     [(''flight_id'', Some '' AA100 ''), (''origin'', Some ''JFK ''), (''destination'', Some '' LAX''),
      (''departure_datetime'', Some ''  2025-11-20 08:00''),
      (''arrival_datetime'', Some ''2025-11-20 11:00  ''), (''price'', Some '' 199.99 '')]"

definition row_T_separator :: row where
  "row_T_separator = sample_row ''JFK'' ''2025-11-23T07:30:00'' ''2025-11-23 09:00'' ''199.99''"

definition row_seconds :: row where
  "row_seconds = sample_row ''JFK'' ''2025-11-20 08:00'' ''2025-11-23 07:30:00'' ''199.99''"

section \<open>A notion for the proofs\<close>

text \<open>
  A matcher consumes only characters of a class when each of its results leaves a suffix
  of the text, and what it has taken before that suffix lies in the class.
\<close>

definition consumes :: "(char \<Rightarrow> bool) \<Rightarrow> 'a matcher \<Rightarrow> bool" where
  "consumes P p = (\<forall>s a r. (a, r) \<in> set (p s) \<longrightarrow> (\<exists>u. s = u @ r \<and> list_all P u))"

section \<open>Characters and digits\<close>

declare show_nat.simps [simp del]

lemma char_eq_code: "(c = d) = (code c = code d)"
  by (simp add: code_def)

lemma code_less: "code c < 256"
  by (simp add: code_def)

lemma digit_char_val: "is_digit c \<Longrightarrow> digit_char (digit_val c) = c"
  by (simp add: is_digit_def between_def digit_char_def digit_val_def code_def)

lemma code_lits:
  "code CHR ''0'' = 48" "code CHR ''1'' = 49" "code CHR ''2'' = 50" "code CHR ''3'' = 51"
  "code CHR ''5'' = 53" "code CHR ''9'' = 57" "code CHR ''-'' = 45" "code CHR '':'' = 58"
  "code CHR '' '' = 32"
  by (simp_all add: code_def)

lemmas digit_arith = is_digit_def between_def digit_val_def char_eq_code code_lits

lemma digit_val_less: "is_digit c \<Longrightarrow> digit_val c < 10"
  unfolding digit_arith by arith

lemma digit_not_space: "is_digit c \<Longrightarrow> \<not> is_space c"
  by (simp add: is_digit_def between_def is_space_def code_def)

lemma re_match_ret: "re_match (re_ret a) s = Some (a, s)"
  by (simp add: re_match_def re_ret_def)

lemma re_match_class: "P c \<Longrightarrow> re_match (re_class P) (c # r) = Some (c, r)"
  by (simp add: re_match_def re_class_def)

lemma re_match_then:
  "re_match p s = Some (a, r) \<Longrightarrow> re_match (f a) r = Some x \<Longrightarrow> re_match (re_then p f) s = Some x"
  by (auto simp: re_match_def re_then_def split: list.splits)

lemma re_match_alt1: "re_match p s = Some x \<Longrightarrow> re_match (re_alt p q) s = Some x"
  by (auto simp: re_match_def re_alt_def split: list.splits)

lemma re_match_alt2: "p s = [] \<Longrightarrow> re_match (re_alt p q) s = re_match q s"
  by (simp add: re_match_def re_alt_def)

lemma re_match_two:
  "P a \<Longrightarrow> Q b \<Longrightarrow> re_match (two P Q) (a # b # r) = Some (10 * digit_val a + digit_val b, r)"
  by (simp add: two_def re_match_def re_then_def re_class_def re_ret_def)

lemma two_fails1: "\<not> P a \<Longrightarrow> two P Q (a # r) = []"
  by (simp add: two_def re_then_def re_class_def)

lemma two_fails2: "\<not> Q b \<Longrightarrow> two P Q (a # b # r) = []"
  by (simp add: two_def re_then_def re_class_def re_ret_def)

lemma re_match_lit: "re_match (lit c) (c # r) = Some (c, r)"
  by (simp add: lit_def re_match_class)

lemma re_match_spaces:
  "\<not> is_space c \<Longrightarrow> re_match re_spaces (CHR '' '' # c # r) = Some ((), c # r)"
  by (simp add: re_match_def re_spaces_def is_space_def code_def)

lemma grp_Y_strict:
  "is_digit a \<Longrightarrow> is_digit b \<Longrightarrow> is_digit c \<Longrightarrow> is_digit d \<Longrightarrow>
   re_match grp_Y (a # b # c # d # r) =
     Some (1000 * digit_val a + 100 * digit_val b + 10 * digit_val c + digit_val d, r)"
  by (simp add: grp_Y_def re_match_def re_then_def re_class_def re_ret_def)

lemma grp_m_strict:
  assumes "is_digit a" "is_digit b" "1 \<le> 10 * digit_val a + digit_val b"
    "10 * digit_val a + digit_val b \<le> 12"
  shows "re_match grp_m (a # b # r) = Some (10 * digit_val a + digit_val b, r)"
proof (cases "a = CHR ''1''")
  case True
  with assms have "between CHR ''0'' CHR ''2'' b"
    unfolding digit_arith by arith
  with True show ?thesis
    by (simp add: grp_m_def re_match_alt1 re_match_two)
next
  case False
  with assms have a: "a = CHR ''0''" and b: "between CHR ''1'' CHR ''9'' b"
    unfolding digit_arith by arith+
  show ?thesis
    unfolding grp_m_def using a b
    by (simp add: re_match_alt2 two_fails1 re_match_alt1 re_match_two)
qed

lemma grp_d_strict:
  assumes "is_digit a" "is_digit b" "1 \<le> 10 * digit_val a + digit_val b"
    "10 * digit_val a + digit_val b \<le> 31"
  shows "re_match grp_d (a # b # r) = Some (10 * digit_val a + digit_val b, r)"
proof -
  consider (three) "a = CHR ''3''" | (onetwo) "between CHR ''1'' CHR ''2'' a" | (zero) "a = CHR ''0''"
    using assms unfolding digit_arith by arith
  then show ?thesis
  proof cases
    case three
    with assms have "between CHR ''0'' CHR ''1'' b"
      unfolding digit_arith by arith
    with three show ?thesis
      by (simp add: grp_d_def re_match_alt1 re_match_two)
  next
    case onetwo
    then have "a \<noteq> CHR ''3''"
      unfolding digit_arith by arith
    with onetwo assms show ?thesis
      by (simp add: grp_d_def re_match_alt2 two_fails1 re_match_alt1 re_match_two)
  next
    case zero
    with assms have b: "between CHR ''1'' CHR ''9'' b"
      unfolding digit_arith by arith
    have "\<not> between CHR ''1'' CHR ''2'' a"
      using zero unfolding digit_arith by arith
    with zero b show ?thesis
      by (simp add: grp_d_def re_match_alt2 two_fails1 re_match_alt1 re_match_two)
  qed
qed

lemma grp_H_strict:
  assumes "is_digit a" "is_digit b" "10 * digit_val a + digit_val b \<le> 23"
  shows "re_match grp_H (a # b # r) = Some (10 * digit_val a + digit_val b, r)"
proof (cases "a = CHR ''2''")
  case True
  with assms have "between CHR ''0'' CHR ''3'' b"
    unfolding digit_arith by arith
  with True show ?thesis
    by (simp add: grp_H_def re_match_alt1 re_match_two)
next
  case False
  with assms have a: "between CHR ''0'' CHR ''1'' a"
    unfolding digit_arith by arith+
  show ?thesis
    unfolding grp_H_def using a False assms(2)
    by (simp add: re_match_alt2 two_fails1 re_match_alt1 re_match_two)
qed

lemma grp_M_strict:
  assumes "is_digit a" "is_digit b" "10 * digit_val a + digit_val b \<le> 59"
  shows "re_match grp_M (a # b # r) = Some (10 * digit_val a + digit_val b, r)"
proof -
  from assms have "between CHR ''0'' CHR ''5'' a"
    unfolding digit_arith by arith
  with assms(2) show ?thesis
    by (simp add: grp_M_def re_match_alt1 re_match_two)
qed


lemma format_regex_strict:
  assumes "is_digit y1" "is_digit y2" "is_digit y3" "is_digit y4"
    and "is_digit m1" "is_digit m2" "is_digit d1" "is_digit d2"
    and "is_digit h1" "is_digit h2" "is_digit n1" "is_digit n2"
    and "1 \<le> 10 * digit_val m1 + digit_val m2" "10 * digit_val m1 + digit_val m2 \<le> 12"
    and "1 \<le> 10 * digit_val d1 + digit_val d2" "10 * digit_val d1 + digit_val d2 \<le> 31"
    and "10 * digit_val h1 + digit_val h2 \<le> 23" "10 * digit_val n1 + digit_val n2 \<le> 59"
  shows "re_match format_regex
           (y1 # y2 # y3 # y4 # CHR ''-'' # m1 # m2 # CHR ''-'' # d1 # d2 # CHR '' '' #
            h1 # h2 # CHR '':'' # n1 # n2 # r) =
         Some (\<lparr>year = 1000 * digit_val y1 + 100 * digit_val y2 + 10 * digit_val y3 + digit_val y4,
                 month = 10 * digit_val m1 + digit_val m2,
                 day = 10 * digit_val d1 + digit_val d2,
                 hour = 10 * digit_val h1 + digit_val h2,
                 minute = 10 * digit_val n1 + digit_val n2\<rparr>, r)"
  unfolding format_regex_def
  apply (rule re_match_then [OF grp_Y_strict]; (rule assms)?)
  apply (rule re_match_then [OF re_match_lit])
  apply (rule re_match_then [OF grp_m_strict]; (rule assms)?)
  apply (rule re_match_then [OF re_match_lit])
  apply (rule re_match_then [OF grp_d_strict]; (rule assms)?)
  apply (rule re_match_then [OF re_match_spaces])
   apply (rule digit_not_space [OF assms(9)])
  apply (rule re_match_then [OF grp_H_strict]; (rule assms)?)
  apply (rule re_match_then [OF re_match_lit])
  apply (rule re_match_then [OF grp_M_strict]; (rule assms)?)
  apply (rule re_match_ret)
  done

lemma length16:
  assumes "length s = 16"
  obtains c0 c1 c2 c3 c4 c5 c6 c7 c8 c9 c10 c11 c12 c13 c14 c15
  where "s = [c0, c1, c2, c3, c4, c5, c6, c7, c8, c9, c10, c11, c12, c13, c14, c15]"
proof -
  from assms have "\<exists>c0 c1 c2 c3 c4 c5 c6 c7 c8 c9 c10 c11 c12 c13 c14 c15.
      s = [c0, c1, c2, c3, c4, c5, c6, c7, c8, c9, c10, c11, c12, c13, c14, c15]"
    by (simp add: eval_nat_numeral length_Suc_conv) blast
  then show ?thesis using that by blast
qed

lemma dec2: "dec [a, b] = 10 * digit_val a + digit_val b"
  by (simp add: dec_def)


lemma dec4:
  "dec [a, b, c, d] = 1000 * digit_val a + 100 * digit_val b + 10 * digit_val c + digit_val d"
  by (simp add: dec_def)


lemma days_in_month_le: "days_in_month y m \<le> 31"
  by (simp add: days_in_month_def)


lemma div10: "b < 10 \<Longrightarrow> (10 * a + b) div 10 = (a::nat)"
  by simp

lemma mod10: "b < 10 \<Longrightarrow> (10 * a + b) mod 10 = (b::nat)"
  by simp

lemma pad2_digits:
  assumes "is_digit a" "is_digit b"
  shows "pad2 (10 * digit_val a + digit_val b) = [a, b]"
proof -
  have lt: "digit_val a < 10" "digit_val b < 10"
    using assms by (simp_all add: digit_val_less)
  have "(10 * digit_val a + digit_val b) div 10 mod 10 = digit_val a"
    using lt by (simp only: div10 mod_less)
  moreover have "(10 * digit_val a + digit_val b) mod 10 = digit_val b"
    using lt by (simp only: mod10)
  ultimately show ?thesis
    using assms by (simp only: pad2_def digit_char_val)
qed

lemma show_nat_digits:
  assumes "is_digit a" "is_digit b" "is_digit c" "is_digit d" "1 \<le> digit_val a"
  shows "show_nat (1000 * digit_val a + 100 * digit_val b + 10 * digit_val c + digit_val d) = [a, b, c, d]"
proof -
  define x where "x = digit_val a"
  define y where "y = digit_val b"
  define z where "z = digit_val c"
  define w where "w = digit_val d"
  define n where "n = 1000 * x + 100 * y + 10 * z + w"
  have lt: "x < 10" "y < 10" "z < 10" "w < 10"
    using assms by (simp_all add: digit_val_less x_def y_def z_def w_def)
  have x: "1 \<le> x"
    using assms by (simp add: x_def)
  have n: "n = 10 * (10 * (10 * x + y) + z) + w"
    by (simp add: n_def)
  have d1: "n div 10 = 10 * (10 * x + y) + z" and m1: "n mod 10 = w"
    using lt unfolding n by (simp_all only: div10 mod10)
  have d2: "(10 * (10 * x + y) + z) div 10 = 10 * x + y" and m2: "(10 * (10 * x + y) + z) mod 10 = z"
    using lt by (simp_all only: div10 mod10)
  have d3: "(10 * x + y) div 10 = x" and m3: "(10 * x + y) mod 10 = y"
    using lt by (simp_all only: div10 mod10)
  have ge: "\<not> n < 10" "\<not> 10 * (10 * x + y) + z < 10" "\<not> 10 * x + y < 10"
    using x by (simp_all add: n)
  have "show_nat x = [digit_char x]"
    using lt by (simp add: show_nat.simps)
  then have "show_nat (10 * x + y) = [digit_char x, digit_char y]"
    using ge by (subst show_nat.simps) (simp only: d3 m3 if_False append.simps)
  then have "show_nat (10 * (10 * x + y) + z) = [digit_char x, digit_char y, digit_char z]"
    using ge by (subst show_nat.simps) (simp only: d2 m2 if_False append.simps)
  then have "show_nat n = [digit_char x, digit_char y, digit_char z, digit_char w]"
    using ge by (subst show_nat.simps) (simp only: d1 m1 if_False append.simps)
  then show ?thesis
    using assms by (simp only: n_def x_def y_def z_def w_def digit_char_val)
qed

lemma year_digit:
  assumes "is_digit a" "is_digit b" "is_digit c" "is_digit d"
    and "1000 \<le> 1000 * digit_val a + 100 * digit_val b + 10 * digit_val c + digit_val d"
  shows "1 \<le> digit_val a"
  using assms digit_val_less [of b] digit_val_less [of c] digit_val_less [of d] by arith

lemma spec_shape_chars:
  assumes "spec_shape s"
  obtains y1 y2 y3 y4 m1 m2 d1 d2 h1 h2 n1 n2
  where "s = [y1, y2, y3, y4, CHR ''-'', m1, m2, CHR ''-'', d1, d2, CHR '' '', h1, h2, CHR '':'', n1, n2]"
    and "is_digit y1" "is_digit y2" "is_digit y3" "is_digit y4"
    and "is_digit m1" "is_digit m2" "is_digit d1" "is_digit d2"
    and "is_digit h1" "is_digit h2" "is_digit n1" "is_digit n2"
    and "spec_datetime_value s =
          \<lparr>year = 1000 * digit_val y1 + 100 * digit_val y2 + 10 * digit_val y3 + digit_val y4,
           month = 10 * digit_val m1 + digit_val m2,
           day = 10 * digit_val d1 + digit_val d2,
           hour = 10 * digit_val h1 + digit_val h2,
           minute = 10 * digit_val n1 + digit_val n2\<rparr>"
proof -
  from assms have "length s = 16"
    by (simp add: spec_shape_def)
  then obtain c0 c1 c2 c3 c4 c5 c6 c7 c8 c9 c10 c11 c12 c13 c14 c15
    where s: "s = [c0, c1, c2, c3, c4, c5, c6, c7, c8, c9, c10, c11, c12, c13, c14, c15]"
    by (rule length16)
  have v: "spec_datetime_value s =
          \<lparr>year = 1000 * digit_val c0 + 100 * digit_val c1 + 10 * digit_val c2 + digit_val c3,
           month = 10 * digit_val c5 + digit_val c6,
           day = 10 * digit_val c8 + digit_val c9,
           hour = 10 * digit_val c11 + digit_val c12,
           minute = 10 * digit_val c14 + digit_val c15\<rparr>"
    by (simp add: s spec_datetime_value_def sub_def dec2 dec4)
  from assms have "c4 = CHR ''-''" "c7 = CHR ''-''" "c10 = CHR '' ''" "c13 = CHR '':''"
    and "is_digit c0" "is_digit c1" "is_digit c2" "is_digit c3"
    and "is_digit c5" "is_digit c6" "is_digit c8" "is_digit c9"
    and "is_digit c11" "is_digit c12" "is_digit c14" "is_digit c15"
    by (simp_all add: s spec_shape_def sub_def)
  with s v that show ?thesis
    by blast
qed

lemma spec_datetime_shape:
  "spec_datetime s =
     (spec_shape s \<and>
      1 \<le> month (spec_datetime_value s) \<and> month (spec_datetime_value s) \<le> 12 \<and>
      1 \<le> day (spec_datetime_value s) \<and>
      day (spec_datetime_value s) \<le>
        days_in_month (year (spec_datetime_value s)) (month (spec_datetime_value s)) \<and>
      hour (spec_datetime_value s) \<le> 23 \<and> minute (spec_datetime_value s) \<le> 59)"
  unfolding spec_datetime_def spec_shape_def by blast


lemma spec_datetime_chars:
  assumes "spec_datetime s"
  obtains y1 y2 y3 y4 m1 m2 d1 d2 h1 h2 n1 n2
  where "s = [y1, y2, y3, y4, CHR ''-'', m1, m2, CHR ''-'', d1, d2, CHR '' '', h1, h2, CHR '':'', n1, n2]"
    and "is_digit y1" "is_digit y2" "is_digit y3" "is_digit y4"
    and "is_digit m1" "is_digit m2" "is_digit d1" "is_digit d2"
    and "is_digit h1" "is_digit h2" "is_digit n1" "is_digit n2"
    and "spec_datetime_value s =
          \<lparr>year = 1000 * digit_val y1 + 100 * digit_val y2 + 10 * digit_val y3 + digit_val y4,
           month = 10 * digit_val m1 + digit_val m2,
           day = 10 * digit_val d1 + digit_val d2,
           hour = 10 * digit_val h1 + digit_val h2,
           minute = 10 * digit_val n1 + digit_val n2\<rparr>"
proof -
  from assms have "spec_shape s"
    by (simp add: spec_datetime_def spec_shape_def)
  then show ?thesis
    by (rule spec_shape_chars) (rule that)
qed


lemma spec_datetime_regex:
  assumes "spec_datetime s"
  shows "re_match format_regex (s @ r) = Some (spec_datetime_value s, r)"
proof -
  from assms obtain y1 y2 y3 y4 m1 m2 d1 d2 h1 h2 n1 n2
    where s: "s = [y1, y2, y3, y4, CHR ''-'', m1, m2, CHR ''-'', d1, d2, CHR '' '', h1, h2, CHR '':'', n1, n2]"
    and dg: "is_digit y1" "is_digit y2" "is_digit y3" "is_digit y4"
     "is_digit m1" "is_digit m2" "is_digit d1" "is_digit d2"
     "is_digit h1" "is_digit h2" "is_digit n1" "is_digit n2"
    and v: "spec_datetime_value s =
          \<lparr>year = 1000 * digit_val y1 + 100 * digit_val y2 + 10 * digit_val y3 + digit_val y4,
           month = 10 * digit_val m1 + digit_val m2,
           day = 10 * digit_val d1 + digit_val d2,
           hour = 10 * digit_val h1 + digit_val h2,
           minute = 10 * digit_val n1 + digit_val n2\<rparr>"
    by (rule spec_datetime_chars)
  from assms have rng:
    "1 \<le> month (spec_datetime_value s)" "month (spec_datetime_value s) \<le> 12"
    "1 \<le> day (spec_datetime_value s)" "day (spec_datetime_value s) \<le> 31"
    "hour (spec_datetime_value s) \<le> 23" "minute (spec_datetime_value s) \<le> 59"
    using days_in_month_le [of "year (spec_datetime_value s)" "month (spec_datetime_value s)"]
    by (simp_all add: spec_datetime_def)
  have "re_match format_regex
           (y1 # y2 # y3 # y4 # CHR ''-'' # m1 # m2 # CHR ''-'' # d1 # d2 # CHR '' '' #
            h1 # h2 # CHR '':'' # n1 # n2 # r) = Some (spec_datetime_value s, r)"
    unfolding v using rng dg
    by (intro format_regex_strict) (simp_all add: v)
  then show ?thesis
    by (simp add: s)
qed


lemma strftime_spec_datetime:
  assumes "spec_datetime s" "1000 \<le> year (spec_datetime_value s)"
  shows "strftime (spec_datetime_value s) = s"
proof -
  from assms(1) obtain y1 y2 y3 y4 m1 m2 d1 d2 h1 h2 n1 n2
    where s: "s = [y1, y2, y3, y4, CHR ''-'', m1, m2, CHR ''-'', d1, d2, CHR '' '', h1, h2, CHR '':'', n1, n2]"
    and dg: "is_digit y1" "is_digit y2" "is_digit y3" "is_digit y4"
     "is_digit m1" "is_digit m2" "is_digit d1" "is_digit d2"
     "is_digit h1" "is_digit h2" "is_digit n1" "is_digit n2"
    and v: "spec_datetime_value s =
          \<lparr>year = 1000 * digit_val y1 + 100 * digit_val y2 + 10 * digit_val y3 + digit_val y4,
           month = 10 * digit_val m1 + digit_val m2,
           day = 10 * digit_val d1 + digit_val d2,
           hour = 10 * digit_val h1 + digit_val h2,
           minute = 10 * digit_val n1 + digit_val n2\<rparr>"
    by (rule spec_datetime_chars)
  from assms(2) have "1 \<le> digit_val y1"
    unfolding v using dg by (intro year_digit [of y1 y2 y3 y4]) simp_all
  with dg show ?thesis
    unfolding v strftime_def
    by (simp add: pad2_digits show_nat_digits s)
qed

lemma strip_ends:
  assumes "strip s \<noteq> []"
  shows "\<not> is_space (hd (strip s))" and "\<not> is_space (last (strip s))"
proof -
  let ?t = "dropWhile is_space s"
  let ?u = "dropWhile is_space (rev ?t)"
  from assms have u: "?u \<noteq> []"
    by (simp add: strip_def rstrip_def lstrip_def)
  then have "\<not> is_space (hd ?u)"
    by (rule hd_dropWhile)
  then show "\<not> is_space (last (strip s))"
    using u by (simp add: strip_def rstrip_def lstrip_def last_rev)
  have t: "?t \<noteq> []"
  proof
    assume "?t = []"
    with u show False by (simp only: rev.simps dropWhile.simps not_False_eq_True simp_thms)
  qed
  then have h: "\<not> is_space (hd ?t)"
    by (rule hd_dropWhile)
  have "last ?u = last (takeWhile is_space (rev ?t) @ ?u)"
    using u by (simp only: last_append if_False)
  also have "\<dots> = last (rev ?t)"
    by (simp only: takeWhile_dropWhile_id)
  also have "\<dots> = hd ?t"
    using t by (simp add: last_rev)
  finally show "\<not> is_space (hd (strip s))"
    using h u by (simp add: strip_def rstrip_def lstrip_def hd_rev)
qed

lemma strip_id:
  assumes "t \<noteq> []" "\<not> is_space (hd t)" "\<not> is_space (last t)"
  shows "strip t = t"
proof -
  from assms have 1: "dropWhile is_space t = t"
    by (cases t) simp_all
  from assms have "dropWhile is_space (rev t) = rev t"
    by (cases t rule: rev_cases) simp_all
  with 1 show ?thesis
    by (simp add: strip_def rstrip_def lstrip_def)
qed

lemma strip_strip: "strip (strip s) = strip s"
proof (cases "strip s = []")
  case True
  have "strip [] = []"
    by (simp add: strip_def rstrip_def lstrip_def)
  with True show ?thesis by simp
next
  case False
  then show ?thesis by (simp add: strip_id strip_ends)
qed

lemma spec_datetime_strip: "spec_datetime t \<Longrightarrow> strip t = t"
  by (erule spec_datetime_chars) (simp add: strip_id digit_not_space)

lemma spec_datetime_nonempty: "spec_datetime t \<Longrightarrow> t \<noteq> []"
  by (auto simp: spec_datetime_def)

lemma strptime_spec_datetime:
  assumes "spec_datetime t" "1 \<le> year (spec_datetime_value t)"
  shows "strptime t = Inr (spec_datetime_value t)"
  using assms spec_datetime_regex [OF assms(1), of "[]"]
  by (simp add: strptime_def spec_datetime_def)

lemma strptime_trailing:
  assumes "spec_datetime t" "r \<noteq> []"
  shows "\<exists>e. strptime (t @ r) = Inl e"
  using assms spec_datetime_regex [OF assms(1), of r]
  by (simp add: strptime_def)

lemma strptime_year0:
  assumes "spec_datetime t" "year (spec_datetime_value t) = 0"
  shows "\<exists>e. strptime t = Inl e"
  using assms spec_datetime_regex [OF assms(1), of "[]"]
  by (simp add: strptime_def)

section \<open>Evaluation on concrete text\<close>

lemmas text_defs = strip_def lstrip_def rstrip_def is_space_def code_def is_digit_def
  between_def digit_val_def

lemmas class_defs = isalnum_def isalpha_def isupper_def is_alnum_def is_alpha_def
  is_numeric_def is_upper_def is_lower_def lower_def lower_char_def

lemmas re_defs = strptime_def re_match_def format_regex_def grp_Y_def grp_m_def grp_d_def
  grp_H_def grp_M_def re_then_def re_alt_def re_ret_def re_class_def two_def one_def lit_def
  re_spaces_def days_in_month_def is_leap_def

lemmas float_defs = py_float_def to_ascii_def is_c_space_def split_sign_def float_body_def
  exponent_def

lemmas double_defs = to_double_def nearest_double_def pack_def round_at_def quantum_def
  binade_def ge_pow2_def round_half_even_def compute_bitlen

lemmas row_defs = validate_row_def REQUIRED_FIELDS_def missing_def row_get_def str_of_def
  parse_field_def add_extra_def strftime_def pad2_def show_nat.simps dt_le_def dt_key_def

lemma digit_char_eqI:
  assumes "code c = 48 + n"
  shows "digit_char n = c"
proof -
  have "char_of (of_char c :: nat) = c"
    by simp
  with assms show ?thesis
    by (simp add: digit_char_def code_def)
qed

lemma digit_char_lits:
  "digit_char 0 = CHR ''0''" "digit_char 1 = CHR ''1''" "digit_char 2 = CHR ''2''"
  "digit_char 3 = CHR ''3''" "digit_char 4 = CHR ''4''" "digit_char 5 = CHR ''5''"
  "digit_char 6 = CHR ''6''" "digit_char 7 = CHR ''7''" "digit_char 8 = CHR ''8''"
  "digit_char 9 = CHR ''9''" "digit_char (Suc 0) = CHR ''1''"
  by (rule digit_char_eqI, simp add: code_def)+

lemma parse_samples:
  "parse_iso_datetime ''2025-11-20 08:00'' = Inr \<lparr>year = 2025, month = 11, day = 20, hour = 8, minute = 0\<rparr>"
  "parse_iso_datetime ''2025-11-20 11:00'' = Inr \<lparr>year = 2025, month = 11, day = 20, hour = 11, minute = 0\<rparr>"
  "parse_iso_datetime ''2025-11-01 00:00'' = Inr \<lparr>year = 2025, month = 11, day = 1, hour = 0, minute = 0\<rparr>"
  "parse_iso_datetime ''2025-11-30 23:59'' = Inr \<lparr>year = 2025, month = 11, day = 30, hour = 23, minute = 59\<rparr>"
  by (simp_all add: parse_iso_datetime_def text_defs re_defs)

lemma to_double_199_99: "to_double False 19999 (- 2) = price_199_99"
  by (simp add: double_defs price_199_99_def)

lemma py_float_199_99: "py_float ''199.99'' = Inr price_199_99"
  by (simp add: float_defs text_defs class_defs to_double_199_99)

lemma validate_row_AA100: "validate_row row_AA100 file lineno = (Some flight_AA100, [])"
  by (simp add: row_AA100_def sample_row_def flight_AA100_def sample_flight_def row_defs
      text_defs class_defs digit_char_lits parse_samples py_float_199_99 price_199_99_def)

section \<open>What \<open>validate_row\<close> does after each rule\<close>

lemma missing_iff: "missing row f = (\<not> spec_present row f)"
  by (simp add: missing_def spec_present_def str_of_def split: option.splits)

lemma find_missing_None:
  "list_all (spec_present row) REQUIRED_FIELDS \<Longrightarrow> find (missing row) REQUIRED_FIELDS = None"
  by (simp add: find_None_iff missing_iff list_all_iff)

lemma get_trimmed: "spec_present row f \<Longrightarrow> strip (str_of (row_get row f d)) = trimmed row f"
  by (simp add: spec_present_def row_get_def str_of_def trimmed_def split: option.splits)

lemma required_present:
  assumes "list_all (spec_present row) REQUIRED_FIELDS"
  shows "spec_present row ''flight_id''" "spec_present row ''origin''"
    "spec_present row ''destination''" "spec_present row ''departure_datetime''"
    "spec_present row ''arrival_datetime''" "spec_present row ''price''"
  using assms by (simp_all add: REQUIRED_FIELDS_def)

lemma upper_not_lower: "is_upper c \<Longrightarrow> \<not> is_lower c"
  unfolding is_upper_def is_lower_def Let_def by arith

lemma spec_flight_id_isalnum:
  "spec_flight_id s \<Longrightarrow> 2 \<le> length s \<and> length s \<le> 8 \<and> isalnum s"
  by (auto simp: spec_flight_id_def isalnum_def is_alnum_def is_numeric_def list_all_iff)

lemma spec_airport_checks:
  "spec_airport s \<Longrightarrow> length s = 3 \<and> isalpha s \<and> isupper s"
  by (cases s) (auto simp: spec_airport_def isalpha_def isupper_def is_alpha_def list_all_iff
      upper_not_lower)

lemma dt_not_le: "(\<not> dt_le a b) = dt_less b a"
  by (simp add: dt_le_def dt_less_def not_le)

lemma float_gt0_not_le0: "float_gt0 x \<Longrightarrow> \<not> float_le0 x"
  by (cases x) auto

lemma add_extra_keys: "fst ` set fl \<subseteq> fst ` set (add_extra fl kv)"
  by (cases kv) (auto simp: add_extra_def Let_def)

lemma map_of_add_extra:
  "k \<in> fst ` set fl \<Longrightarrow> map_of (add_extra fl kv) k = map_of fl k"
  by (cases kv) (auto simp: add_extra_def Let_def map_add_def split: option.splits
      dest: map_of_SomeD weak_map_of_SomeI)

lemma map_of_add_extras:
  "k \<in> fst ` set fl \<Longrightarrow> map_of (foldl add_extra fl row) k = map_of fl k"
proof (induction row arbitrary: fl)
  case Nil
  then show ?case by simp
next
  case (Cons kv row)
  from Cons.prems have "k \<in> fst ` set (add_extra fl kv)"
    using add_extra_keys by blast
  with Cons show ?case
    by (simp add: map_of_add_extra)
qed

lemma add_extras_nonempty: "fl \<noteq> [] \<Longrightarrow> foldl add_extra fl row \<noteq> []"
proof (induction row arbitrary: fl)
  case Nil
  then show ?case by simp
next
  case (Cons kv row)
  from Cons.prems have "add_extra fl kv \<noteq> []"
    by (cases kv) (simp add: add_extra_def Let_def)
  with Cons.IH show ?case by simp
qed

lemma validate_row_after_checks:
  assumes "checks_1_to_3 row"
  shows "validate_row row file lineno =
     (case parse_field row ''departure_datetime'' of
        Inl e \<Rightarrow> (None, ''departure_datetime parse error: '' @ exn_str e)
      | Inr dep \<Rightarrow>
     (case parse_field row ''arrival_datetime'' of
        Inl e \<Rightarrow> (None, ''arrival_datetime parse error: '' @ exn_str e)
      | Inr arr \<Rightarrow>
     if dt_le arr dep
     then (None, ''arrival_datetime must be after departure_datetime'')
     else
     (case py_float (trimmed row ''price'') of
        Inl _ \<Rightarrow> (None, ''price must be a positive float'')
      | Inr price \<Rightarrow>
     if float_le0 price
     then (None, ''price must be a positive number'')
     else
       (Some (foldl add_extra
          [(''flight_id'', PStr (trimmed row ''flight_id'')),
           (''origin'', PStr (trimmed row ''origin'')),
           (''destination'', PStr (trimmed row ''destination'')),
           (''departure_datetime'', PStr (strftime dep)),
           (''arrival_datetime'', PStr (strftime arr)),
           (''price'', PFloat price)] row), []))))"
proof -
  from assms have p: "list_all (spec_present row) REQUIRED_FIELDS"
    by (simp add: checks_1_to_3_def missing_iff)
  note pr = required_present [OF p]
  show ?thesis
    unfolding validate_row_def using assms
    by (simp add: checks_1_to_3_def find_missing_None [OF p] get_trimmed pr
        cong: if_cong sum.case_cong)
qed

lemma spec_rules_checks: "spec_rules_1_to_3 row \<Longrightarrow> checks_1_to_3 row"
  using spec_flight_id_isalnum [of "trimmed row ''flight_id''"]
    spec_airport_checks [of "trimmed row ''origin''"]
    spec_airport_checks [of "trimmed row ''destination''"]
  by (simp add: spec_rules_1_to_3_def checks_1_to_3_def missing_iff)

lemmas validate_row_after_rules = validate_row_after_checks [OF spec_rules_checks]

lemma validate_row_checks_fail:
  assumes "\<not> checks_1_to_3 row"
  shows "fst (validate_row row file lineno) = None"
proof (cases "find (missing row) REQUIRED_FIELDS")
  case (Some f)
  then show ?thesis
    by (simp add: validate_row_def)
next
  case None
  then have p: "list_all (spec_present row) REQUIRED_FIELDS"
    by (simp add: find_None_iff missing_iff list_all_iff)
  note pr = required_present [OF p]
  from assms p show ?thesis
    unfolding validate_row_def
    by (auto simp: None checks_1_to_3_def missing_iff get_trimmed pr Let_def)
qed

lemmas spec_row_defs = spec_rules_1_to_3_def spec_present_def trimmed_def spec_flight_id_def
  spec_airport_def REQUIRED_FIELDS_def sample_row_def

lemma parse_samples2:
  "parse_iso_datetime ''2025-11-20 08:01'' = Inr \<lparr>year = 2025, month = 11, day = 20, hour = 8, minute = 1\<rparr>"
  by (simp_all add: parse_iso_datetime_def text_defs re_defs)

lemma py_float_abc: "py_float ''abc'' = Inl (ValueError ''could not convert string to float'')"
  by (simp add: float_defs text_defs class_defs)

lemma py_float_nan: "py_float ''nan'' = Inr FNan"
  by (simp add: float_defs text_defs class_defs)

lemma eq_filters_filter:
  "eq_filters rp kvs flights =
     filter (\<lambda>f. list_all (\<lambda>kv. field_matches rp (fst kv) (snd kv) f) kvs) flights"
proof (induction kvs arbitrary: flights)
  case Nil
  then show ?case by (simp add: eq_filters_def)
next
  case (Cons kv kvs)
  have "eq_filters rp (kv # kvs) flights =
          eq_filters rp kvs (filter (field_matches rp (fst kv) (snd kv)) flights)"
    by (simp add: eq_filters_def case_prod_beta)
  also have "\<dots> = filter (\<lambda>f. list_all (\<lambda>kv. field_matches rp (fst kv) (snd kv) f) kvs)
                       (filter (field_matches rp (fst kv) (snd kv)) flights)"
    by (rule Cons.IH)
  also have "\<dots> = filter (\<lambda>f. list_all (\<lambda>kv. field_matches rp (fst kv) (snd kv) f) (kv # kvs))
                       flights"
    by (simp add: conj_commute)
  finally show ?case .
qed

lemma filter_items_dict:
  "map_of q ''filter'' = Some (PDict kvs) \<Longrightarrow> filter_items q = Inr kvs"
  by (cases kvs) (simp_all add: filter_items_def)

lemma run_loop_results:
  assumes "list_all2 (\<lambda>x m. \<exists>q. x = PDict q \<and> apply_filters rp flights q = Inr m) qs ms"
  shows "\<exists>rs. run_loop rp flights n qs = Inr rs \<and> length rs = length qs \<and>
           (\<forall>i<length qs. \<forall>q. qs ! i = PDict q \<longrightarrow> rs ! i = result_entry q (n + i) (ms ! i))"
  using assms
proof (induction qs ms arbitrary: n rule: list_all2_induct)
  case Nil
  then show ?case by simp
next
  case (Cons x qs m ms)
  from Cons.hyps(1) obtain q where q: "x = PDict q" "apply_filters rp flights q = Inr m"
    by blast
  from Cons.IH [of "Suc n"] obtain rs where rs: "run_loop rp flights (Suc n) qs = Inr rs"
    "length rs = length qs"
    "\<forall>i<length qs. \<forall>q. qs ! i = PDict q \<longrightarrow> rs ! i = result_entry q (Suc n + i) (ms ! i)"
    by blast
  have "run_loop rp flights n (x # qs) = Inr (result_entry q n m # rs)"
    by (simp add: q rs(1))
  moreover have "\<forall>i<length (x # qs). \<forall>q'. (x # qs) ! i = PDict q' \<longrightarrow>
      (result_entry q n m # rs) ! i = result_entry q' (n + i) ((m # ms) ! i)"
  proof (intro allI impI)
    fix i q'
    assume i: "i < length (x # qs)" and e: "(x # qs) ! i = PDict q'"
    show "(result_entry q n m # rs) ! i = result_entry q' (n + i) ((m # ms) ! i)"
    proof (cases i)
      case 0
      with e q(1) show ?thesis by simp
    next
      case (Suc j)
      with i e rs(3) show ?thesis by simp
    qed
  qed
  ultimately show ?case
    using rs(2) by simp
qed

lemma show_nat_1: "show_nat (Suc 0) = ''1''"
  by (simp add: show_nat.simps digit_char_lits)

lemma validate_row_nonempty: "validate_row row p l = (Some fl, msg) \<Longrightarrow> fl \<noteq> []"
  by (auto simp: validate_row_def Let_def add_extras_nonempty split: option.splits sum.splits if_splits)

lemma flight_truthy_accepted: "flight_truthy (fst (validate_row row p l)) = accepted p (l, row)"
proof (cases "validate_row row p l")
  case (Pair r msg)
  then show ?thesis
    by (cases r) (auto simp: flight_truthy_def accepted_def dest: validate_row_nonempty)
qed

lemma process_rows:
  "foldl (process_row sr p) (va, er) lrs =
     (va @ map (\<lambda>lr. the (fst (validate_row (snd lr) p (fst lr)))) (filter (accepted p) lrs),
      er @ map (row_error sr p) (filter (\<lambda>lr. \<not> accepted p lr) lrs))"
proof (induction lrs arbitrary: va er)
  case Nil
  then show ?case by simp
next
  case (Cons lr lrs)
  obtain l row where lr: "lr = (l, row)"
    by (cases lr)
  obtain r msg where v: "validate_row row p l = (r, msg)"
    by (cases "validate_row row p l")
  have t: "flight_truthy r = accepted p (l, row)"
    using flight_truthy_accepted [of row p l] by (simp add: v)
  show ?case
  proof (cases "accepted p (l, row)")
    case True
    then have "process_row sr p (va, er) lr = (va @ [the r], er)"
      using t by (simp add: process_row_def lr v)
    with True show ?thesis
      by (simp add: Cons.IH lr v)
  next
    case False
    then have "process_row sr p (va, er) lr = (va, er @ [row_error sr p lr])"
      using t by (simp add: process_row_def lr v row_error_def)
    with False show ?thesis
      by (simp add: Cons.IH lr)
  qed
qed

lemma read_source_spec:
  "read_source sr p (va, er) src =
     (va @ spec_source_valid p src, er @ spec_source_errors sr p src)"
  by (cases src)
     (simp_all add: read_source_def spec_source_valid_def spec_source_errors_def process_rows
        numbered_def Let_def split: option.splits)

lemma parse_fold:
  "foldl (\<lambda>st p. read_source sr p st (fs p)) (va, er) paths =
     (va @ concat (map (\<lambda>p. spec_source_valid p (fs p)) paths),
      er @ concat (map (\<lambda>p. spec_source_errors sr p (fs p)) paths))"
  by (induction paths arbitrary: va er) (simp_all add: read_source_spec)

lemma length_numbered: "length (numbered rows) = length rows"
  by (simp only: numbered_def length_zip length_upt add_diff_cancel_left' min.idem)

lemma lower_char_eqI:
  assumes "is_upper c" "code d = code c + 32"
  shows "lower_char c = d"
proof -
  have "char_of (of_char d :: nat) = d"
    by simp
  with assms show ?thesis
    by (simp add: lower_char_def code_def)
qed

lemma lower_samples:
  "lower ''JFK'' = ''jfk''" "lower ''SFO'' = ''sfo''" "lower ''LHR'' = ''lhr''"
  "lower ''jfk'' = ''jfk''"
proof -
  have u: "lower_char CHR ''J'' = CHR ''j''" "lower_char CHR ''F'' = CHR ''f''"
    "lower_char CHR ''K'' = CHR ''k''" "lower_char CHR ''S'' = CHR ''s''"
    "lower_char CHR ''O'' = CHR ''o''" "lower_char CHR ''L'' = CHR ''l''"
    "lower_char CHR ''H'' = CHR ''h''" "lower_char CHR ''R'' = CHR ''r''"
    by (rule lower_char_eqI; simp add: is_upper_def code_def)+
  have l: "lower_char CHR ''j'' = CHR ''j''" "lower_char CHR ''f'' = CHR ''f''"
    "lower_char CHR ''k'' = CHR ''k''"
    by (simp_all add: lower_char_def is_upper_def code_def)
  show "lower ''JFK'' = ''jfk''" "lower ''SFO'' = ''sfo''" "lower ''LHR'' = ''lhr''"
    "lower ''jfk'' = ''jfk''"
    by (simp_all add: lower_def u l)
qed

lemma parse_samples3:
  "parse_iso_datetime ''2025-11-21 09:00'' = Inr \<lparr>year = 2025, month = 11, day = 21, hour = 9, minute = 0\<rparr>"
  "parse_iso_datetime ''2025-11-22 15:00'' = Inr \<lparr>year = 2025, month = 11, day = 22, hour = 15, minute = 0\<rparr>"
  "parse_iso_datetime ''2025-11-22 14:00'' = Inr \<lparr>year = 2025, month = 11, day = 22, hour = 14, minute = 0\<rparr>"
  by (simp_all add: parse_iso_datetime_def text_defs re_defs)

lemma validate_row_no_origin:
  "validate_row row_no_origin file lineno =
     (None, ''missing required field '' @ [CHR 39] @ ''origin'' @ [CHR 39])"
  by (simp add: row_no_origin_def sample_row_def row_defs text_defs)

lemma validate_row_arrival_before:
  "validate_row row_arrival_before file lineno =
     (None, ''arrival_datetime must be after departure_datetime'')"
  by (simp add: row_arrival_before_def sample_row_def row_defs text_defs class_defs parse_samples3)

lemma apply_filters_jfk:
  "apply_filters repr_text [flight_AA100, flight_UA400] query_jfk = Inr [flight_AA100]"
  by (simp add: query_jfk_def flight_AA100_def sample_flight_def flight_UA400_def
      apply_filters_def filter_items_def eq_filters_def field_matches_def py_str_def
      departure_between_def arrival_before_def arrival_after_def lower_samples)

lemma apply_filters_all:
  "apply_filters repr_text [flight_AA100, flight_UA400] query_all =
     Inr [flight_AA100, flight_UA400]"
  by (simp add: query_all_def apply_filters_def filter_items_def eq_filters_def
      departure_between_def arrival_before_def arrival_after_def)

section \<open>What the regular expression can consume\<close>

lemma consumes_class: "(\<And>c. Q c \<Longrightarrow> P c) \<Longrightarrow> consumes P (re_class Q)"
  by (auto simp: consumes_def re_class_def split: list.splits if_splits)

lemma consumes_ret: "consumes P (re_ret a)"
  by (simp add: consumes_def re_ret_def)

lemma consumes_then:
  assumes "consumes P p" and "\<And>a. consumes P (f a)"
  shows "consumes P (re_then p f)"
  unfolding consumes_def
proof (intro allI impI)
  fix s b r
  assume "(b, r) \<in> set (re_then p f s)"
  then obtain a t where 1: "(a, t) \<in> set (p s)" and 2: "(b, r) \<in> set (f a t)"
    by (auto simp: re_then_def)
  from assms(1) 1 obtain u where u: "s = u @ t" "list_all P u"
    unfolding consumes_def by blast
  from assms(2) [of a] 2 obtain v where v: "t = v @ r" "list_all P v"
    unfolding consumes_def by blast
  from u v have "s = (u @ v) @ r" "list_all P (u @ v)"
    by simp_all
  then show "\<exists>w. s = w @ r \<and> list_all P w"
    by blast
qed

lemma consumes_alt: "consumes P p \<Longrightarrow> consumes P q \<Longrightarrow> consumes P (re_alt p q)"
  by (auto simp: consumes_def re_alt_def)

lemma consumes_spaces:
  assumes "\<And>c. is_space c \<Longrightarrow> P c"
  shows "consumes P re_spaces"
  unfolding consumes_def
proof (intro allI impI)
  fix s and a :: unit and r
  assume "(a, r) \<in> set (re_spaces s)"
  then have "\<exists>n. n \<le> length (takeWhile is_space s) \<and> r = drop n s"
    by (auto simp: re_spaces_def intro: less_imp_le)
  then obtain n where n: "n \<le> length (takeWhile is_space s)" "r = drop n s"
    by blast
  have "take n s = take n (takeWhile is_space s)"
    using n(1) by (metis append_eq_conv_conj take_append takeWhile_dropWhile_id
        diff_is_0_eq take_0 append_Nil2)
  then have "list_all is_space (take n s)"
    by (metis in_set_takeD list_all_iff set_takeWhileD)
  then have "list_all P (take n s)"
    using assms by (simp add: list_all_iff)
  moreover have "s = take n s @ r"
    by (simp add: n(2))
  ultimately show "\<exists>u. s = u @ r \<and> list_all P u"
    by blast
qed

lemma consumes_two:
  "(\<And>c. A c \<Longrightarrow> P c) \<Longrightarrow> (\<And>c. B c \<Longrightarrow> P c) \<Longrightarrow> consumes P (two A B)"
  unfolding two_def by (intro consumes_then consumes_class consumes_ret)

lemma consumes_one: "(\<And>c. A c \<Longrightarrow> P c) \<Longrightarrow> consumes P (one A)"
  unfolding one_def by (intro consumes_then consumes_class consumes_ret)

lemma between_digit:
  "between CHR ''0'' CHR ''1'' c \<Longrightarrow> is_digit c" "between CHR ''0'' CHR ''2'' c \<Longrightarrow> is_digit c"
  "between CHR ''0'' CHR ''3'' c \<Longrightarrow> is_digit c" "between CHR ''0'' CHR ''5'' c \<Longrightarrow> is_digit c"
  "between CHR ''1'' CHR ''2'' c \<Longrightarrow> is_digit c" "between CHR ''1'' CHR ''9'' c \<Longrightarrow> is_digit c"
  "c = CHR ''0'' \<Longrightarrow> is_digit c" "c = CHR ''1'' \<Longrightarrow> is_digit c"
  "c = CHR ''2'' \<Longrightarrow> is_digit c" "c = CHR ''3'' \<Longrightarrow> is_digit c"
  by (simp_all add: is_digit_def between_def code_def)

lemma dt_char_intros:
  "is_digit c \<Longrightarrow> dt_char c" "is_space c \<Longrightarrow> dt_char c"
  "c = CHR ''-'' \<Longrightarrow> dt_char c" "c = CHR '':'' \<Longrightarrow> dt_char c" "c = CHR '' '' \<Longrightarrow> dt_char c"
  by (simp_all add: dt_char_def is_space_def code_def)

lemma consumes_format_regex: "consumes dt_char format_regex"
  unfolding format_regex_def grp_Y_def grp_m_def grp_d_def grp_H_def grp_M_def lit_def
  by (intro consumes_then consumes_alt consumes_two consumes_one consumes_class consumes_ret
      consumes_spaces)
     (simp_all add: dt_char_intros between_digit)

lemma strptime_bad_char:
  assumes "\<not> list_all dt_char s"
  shows "\<exists>e. strptime s = Inl e"
proof (cases "re_match format_regex s")
  case None
  then show ?thesis by (simp add: strptime_def)
next
  case (Some x)
  obtain d r where x: "x = (d, r)"
    by (cases x)
  from Some x have "(d, r) \<in> set (format_regex s)"
    by (auto simp: re_match_def split: list.splits)
  with consumes_format_regex obtain u where "s = u @ r" "list_all dt_char u"
    unfolding consumes_def by blast
  with assms have "r \<noteq> []"
    by auto
  with Some x show ?thesis
    by (simp add: strptime_def)
qed

lemma parse_iso_datetime_error:
  "parse_iso_datetime s = Inl e \<Longrightarrow> strip s \<noteq> [] \<Longrightarrow> e = format_error (strip s)"
  by (auto simp: parse_iso_datetime_def Let_def split: sum.splits)

lemma parse_iso_datetime_rejects:
  "strip s \<noteq> [] \<Longrightarrow> strptime (strip s) = Inl e \<Longrightarrow>
   parse_iso_datetime s = Inl (format_error (strip s))"
  by (simp add: parse_iso_datetime_def)

lemma parse_iso_datetime_spec:
  assumes "spec_datetime (strip s)" "1 \<le> year (spec_datetime_value (strip s))"
  shows "parse_iso_datetime s = Inr (spec_datetime_value (strip s))"
  using spec_datetime_nonempty [OF assms(1)] strptime_spec_datetime [OF assms]
  by (simp add: parse_iso_datetime_def)

section \<open>What \<open>strptime\<close> can accept\<close>

lemma re_then_mem:
  "((v, r) \<in> set (re_then p f s)) = (\<exists>a r'. (a, r') \<in> set (p s) \<and> (v, r) \<in> set (f a r'))"
  by (auto simp: re_then_def)

lemma re_alt_mem: "(x \<in> set (re_alt p q s)) = (x \<in> set (p s) \<or> x \<in> set (q s))"
  by (simp add: re_alt_def)

lemma re_class_mem: "((c, r) \<in> set (re_class P s)) = (s = c # r \<and> P c)"
  by (auto simp: re_class_def split: list.splits)

lemma re_ret_mem: "((v, r) \<in> set (re_ret a s)) = (v = a \<and> r = s)"
  by (simp add: re_ret_def)

lemma lit_mem: "((c, r) \<in> set (lit x s)) = (s = x # r \<and> c = x)"
  by (auto simp: lit_def re_class_mem)

lemma two_mem:
  "((v, r) \<in> set (two P Q s)) =
     (\<exists>a b. s = a # b # r \<and> P a \<and> Q b \<and> v = 10 * digit_val a + digit_val b)"
  by (auto simp: two_def re_then_mem re_class_mem re_ret_mem)

lemma one_mem: "((v, r) \<in> set (one P s)) = (\<exists>a. s = a # r \<and> P a \<and> v = digit_val a)"
  by (auto simp: one_def re_then_mem re_class_mem re_ret_mem)

lemma re_spaces_mem:
  assumes "(u, r) \<in> set (re_spaces s)"
  shows "\<exists>sp. sp \<noteq> [] \<and> list_all is_space sp \<and> s = sp @ r"
proof -
  from assms obtain n where n: "1 \<le> n" "n \<le> length (takeWhile is_space s)" "r = drop n s"
    by (auto simp: re_spaces_def)
  have "take n s = take n (takeWhile is_space s)"
    using n(2) by (metis takeWhile_dropWhile_id take_append diff_is_0_eq take_0 append_Nil2)
  then have "list_all is_space (take n s)"
    by (metis list_all_iff set_take_subset set_takeWhileD subset_code(1))
  moreover have "take n s \<noteq> []"
    using n by (auto simp: take_eq_Nil)
  ultimately show ?thesis
    using n(3) by (metis append_take_drop_id)
qed

lemma grp_Y_mem:
  "(v, r) \<in> set (grp_Y s) \<Longrightarrow>
   \<exists>a b c d. s = a # b # c # d # r \<and> is_digit a \<and> is_digit b \<and> is_digit c \<and> is_digit d \<and>
     v = 1000 * digit_val a + 100 * digit_val b + 10 * digit_val c + digit_val d"
  by (auto simp: grp_Y_def re_then_mem re_class_mem re_ret_mem)

lemma grp_m_mem:
  assumes "(v, r) \<in> set (grp_m s)"
  shows "1 \<le> v \<and> v \<le> 12 \<and>
    ((\<exists>a b. s = a # b # r \<and> is_digit a \<and> is_digit b \<and> v = 10 * digit_val a + digit_val b) \<or>
     (\<exists>a. s = a # r \<and> is_digit a \<and> v = digit_val a))"
  using assms unfolding grp_m_def re_alt_mem two_mem one_mem digit_arith
  by (elim disjE exE conjE; simp; arith)

lemma grp_d_mem:
  assumes "(v, r) \<in> set (grp_d s)"
  shows "1 \<le> v \<and> v \<le> 31 \<and>
    ((\<exists>a b. s = a # b # r \<and> is_digit a \<and> is_digit b \<and> v = 10 * digit_val a + digit_val b) \<or>
     (\<exists>a. s = a # r \<and> is_digit a \<and> v = digit_val a) \<or>
     (\<exists>a. s = CHR '' '' # a # r \<and> is_digit a \<and> v = digit_val a))"
  using assms unfolding grp_d_def re_alt_mem two_mem one_mem re_then_mem lit_mem digit_arith
  by (elim disjE exE conjE; simp; arith)

lemma grp_H_mem:
  assumes "(v, r) \<in> set (grp_H s)"
  shows "v \<le> 23 \<and>
    ((\<exists>a b. s = a # b # r \<and> is_digit a \<and> is_digit b \<and> v = 10 * digit_val a + digit_val b) \<or>
     (\<exists>a. s = a # r \<and> is_digit a \<and> v = digit_val a))"
  using assms unfolding grp_H_def re_alt_mem two_mem one_mem digit_arith
  by (elim disjE exE conjE; simp; arith)

lemma grp_M_mem:
  assumes "(v, r) \<in> set (grp_M s)"
  shows "v \<le> 59 \<and>
    ((\<exists>a b. s = a # b # r \<and> is_digit a \<and> is_digit b \<and> v = 10 * digit_val a + digit_val b) \<or>
     (\<exists>a. s = a # r \<and> is_digit a \<and> v = digit_val a))"
  using assms unfolding grp_M_def re_alt_mem two_mem one_mem digit_arith
  by (elim disjE exE conjE; simp; arith)

lemma format_regex_mem:
  assumes "(d, r) \<in> set (format_regex s)"
  obtains y r1 m r2 dd r3 u r4 h r5 mi
  where "(y, CHR ''-'' # r1) \<in> set (grp_Y s)" "(m, CHR ''-'' # r2) \<in> set (grp_m r1)"
    "(dd, r3) \<in> set (grp_d r2)" "(u, r4) \<in> set (re_spaces r3)"
    "(h, CHR '':'' # r5) \<in> set (grp_H r4)" "(mi, r) \<in> set (grp_M r5)"
    "d = \<lparr>year = y, month = m, day = dd, hour = h, minute = mi\<rparr>"
  using assms unfolding format_regex_def re_then_mem lit_mem re_ret_mem
  by blast

lemma digit_not_sep:
  assumes "is_digit c"
  shows "c \<noteq> CHR ''-''" "c \<noteq> CHR '':''" "c \<noteq> CHR '' ''"
  using assms unfolding digit_arith by arith+

lemma re_spaces_one:
  assumes "\<not> is_space c" "(u, r) \<in> set (re_spaces (CHR '' '' # c # s))"
  shows "r = c # s"
  using assms by (simp add: re_spaces_def is_space_def code_def)

lemma re_spaces_none: "\<not> is_space c \<Longrightarrow> re_spaces (c # s) = []"
  by (simp add: re_spaces_def)

lemma shaped_matches:
  assumes dg: "is_digit y1" "is_digit y2" "is_digit y3" "is_digit y4"
     "is_digit m1" "is_digit m2" "is_digit d1" "is_digit d2"
     "is_digit h1" "is_digit h2" "is_digit n1" "is_digit n2"
    and mem: "(d, []) \<in> set (format_regex
      [y1, y2, y3, y4, CHR ''-'', m1, m2, CHR ''-'', d1, d2, CHR '' '', h1, h2, CHR '':'', n1, n2])"
  shows "d = \<lparr>year = 1000 * digit_val y1 + 100 * digit_val y2 + 10 * digit_val y3 + digit_val y4,
           month = 10 * digit_val m1 + digit_val m2,
           day = 10 * digit_val d1 + digit_val d2,
           hour = 10 * digit_val h1 + digit_val h2,
           minute = 10 * digit_val n1 + digit_val n2\<rparr> \<and>
         1 \<le> month d \<and> month d \<le> 12 \<and> 1 \<le> day d \<and> day d \<le> 31 \<and>
         hour d \<le> 23 \<and> minute d \<le> 59"
proof -
  note sep = dg [THEN digit_not_sep(1)] dg [THEN digit_not_sep(2)] dg [THEN digit_not_sep(3)]
  from mem obtain y r1 m r2 dd r3 u r4 h r5 mi
    where Y: "(y, CHR ''-'' # r1) \<in> set (grp_Y
        [y1, y2, y3, y4, CHR ''-'', m1, m2, CHR ''-'', d1, d2, CHR '' '', h1, h2, CHR '':'', n1, n2])"
    and M: "(m, CHR ''-'' # r2) \<in> set (grp_m r1)"
    and D: "(dd, r3) \<in> set (grp_d r2)" and S: "(u, r4) \<in> set (re_spaces r3)"
    and H: "(h, CHR '':'' # r5) \<in> set (grp_H r4)" and N: "(mi, []) \<in> set (grp_M r5)"
    and d: "d = \<lparr>year = y, month = m, day = dd, hour = h, minute = mi\<rparr>"
    by (rule format_regex_mem)
  from grp_Y_mem [OF Y]
  have y: "y = 1000 * digit_val y1 + 100 * digit_val y2 + 10 * digit_val y3 + digit_val y4"
    and r1: "r1 = [m1, m2, CHR ''-'', d1, d2, CHR '' '', h1, h2, CHR '':'', n1, n2]"
    by auto
  from grp_m_mem [OF M] sep
  have m: "m = 10 * digit_val m1 + digit_val m2" "1 \<le> m" "m \<le> 12"
    and r2: "r2 = [d1, d2, CHR '' '', h1, h2, CHR '':'', n1, n2]"
    unfolding r1 by auto
  from grp_d_mem [OF D] sep
  have "(dd = 10 * digit_val d1 + digit_val d2 \<and> r3 = [CHR '' '', h1, h2, CHR '':'', n1, n2]) \<or>
        r3 = [d2, CHR '' '', h1, h2, CHR '':'', n1, n2]"
    unfolding r2 by auto
  moreover have "r3 \<noteq> [d2, CHR '' '', h1, h2, CHR '':'', n1, n2]"
    using S re_spaces_none [OF digit_not_space [OF dg(8)] ] by auto
  ultimately have dd: "dd = 10 * digit_val d1 + digit_val d2"
    and r3: "r3 = [CHR '' '', h1, h2, CHR '':'', n1, n2]"
    by auto
  from grp_d_mem [OF D] have dd': "1 \<le> dd" "dd \<le> 31"
    by auto
  from S have r4: "r4 = [h1, h2, CHR '':'', n1, n2]"
    unfolding r3 by (rule re_spaces_one [OF digit_not_space [OF dg(9)] ])
  from grp_H_mem [OF H] sep
  have h: "h = 10 * digit_val h1 + digit_val h2" "h \<le> 23" and r5: "r5 = [n1, n2]"
    unfolding r4 by auto
  from grp_M_mem [OF N]
  have mi: "mi = 10 * digit_val n1 + digit_val n2" "mi \<le> 59"
    unfolding r5 by auto
  from y m dd dd' h mi show ?thesis
    by (simp add: d)
qed

lemma strptime_Inr:
  assumes "strptime s = Inr d"
  shows "(d, []) \<in> set (format_regex s)" "1 \<le> year d" "day d \<le> days_in_month (year d) (month d)"
  using assms
  by (auto simp: strptime_def re_match_def split: list.splits if_splits)

lemma strptime_shape:
  assumes "spec_shape s" "strptime s = Inr d"
  shows "spec_datetime s" "d = spec_datetime_value s"
proof -
  from assms(1) obtain y1 y2 y3 y4 m1 m2 d1 d2 h1 h2 n1 n2
    where s: "s = [y1, y2, y3, y4, CHR ''-'', m1, m2, CHR ''-'', d1, d2, CHR '' '', h1, h2, CHR '':'', n1, n2]"
    and dg: "is_digit y1" "is_digit y2" "is_digit y3" "is_digit y4"
     "is_digit m1" "is_digit m2" "is_digit d1" "is_digit d2"
     "is_digit h1" "is_digit h2" "is_digit n1" "is_digit n2"
    and v: "spec_datetime_value s =
          \<lparr>year = 1000 * digit_val y1 + 100 * digit_val y2 + 10 * digit_val y3 + digit_val y4,
           month = 10 * digit_val m1 + digit_val m2,
           day = 10 * digit_val d1 + digit_val d2,
           hour = 10 * digit_val h1 + digit_val h2,
           minute = 10 * digit_val n1 + digit_val n2\<rparr>"
    by (rule spec_shape_chars)
  note p = strptime_Inr [OF assms(2)]
  from p(1) have "d = \<lparr>year = 1000 * digit_val y1 + 100 * digit_val y2 + 10 * digit_val y3 + digit_val y4,
           month = 10 * digit_val m1 + digit_val m2,
           day = 10 * digit_val d1 + digit_val d2,
           hour = 10 * digit_val h1 + digit_val h2,
           minute = 10 * digit_val n1 + digit_val n2\<rparr> \<and>
         1 \<le> month d \<and> month d \<le> 12 \<and> 1 \<le> day d \<and> day d \<le> 31 \<and>
         hour d \<le> 23 \<and> minute d \<le> 59"
    unfolding s by (rule shaped_matches [OF dg])
  then have d: "d = spec_datetime_value s"
    and rng: "1 \<le> month d" "month d \<le> 12" "1 \<le> day d" "hour d \<le> 23" "minute d \<le> 59"
    unfolding v by blast+
  show "d = spec_datetime_value s"
    by (rule d)
  from assms(1) rng p(3) show "spec_datetime s"
    unfolding spec_datetime_shape d by simp
qed

lemma spec_shape_nonempty: "spec_shape s \<Longrightarrow> s \<noteq> []"
  by (auto simp: spec_shape_def)

lemma parse_iso_datetime_out_of_range:
  assumes "spec_shape (strip s)" "\<not> spec_datetime (strip s)"
  shows "parse_iso_datetime s = Inl (format_error (strip s))"
proof (cases "strptime (strip s)")
  case (Inl e)
  with spec_shape_nonempty [OF assms(1)] show ?thesis
    by (rule parse_iso_datetime_rejects)
next
  case (Inr d)
  with assms show ?thesis
    using strptime_shape(1) by blast
qed

lemma dec1: "dec [a] = digit_val a"
  by (simp add: dec_def)

lemma digits_intros:
  "is_digit a \<Longrightarrow> digits 2 [a]" "is_digit a \<Longrightarrow> is_digit b \<Longrightarrow> digits 2 [a, b]"
  by (simp_all add: digits_def)

lemma year_le:
  assumes "is_digit a" "is_digit b" "is_digit c" "is_digit d"
  shows "1000 * digit_val a + 100 * digit_val b + 10 * digit_val c + digit_val d \<le> 9999"
  using assms [THEN digit_val_less] by arith

lemma grp_Y_text:
  assumes "(v, r) \<in> set (grp_Y s)"
  shows "\<exists>t. s = t @ r \<and> length t = 4 \<and> list_all is_digit t \<and> v = dec t \<and> v \<le> 9999"
proof -
  from grp_Y_mem [OF assms] obtain a b c d
    where "s = [a, b, c, d] @ r" "is_digit a" "is_digit b" "is_digit c" "is_digit d"
      "v = dec [a, b, c, d]"
    by (auto simp: dec4)
  then show ?thesis
    using year_le [of a b c d] by (intro exI [of _ "[a, b, c, d]"]) (simp add: dec4)
qed

lemma two_or_one_text:
  assumes "(\<exists>a b. s = a # b # r \<and> is_digit a \<and> is_digit b \<and> v = 10 * digit_val a + digit_val b) \<or>
     (\<exists>a. s = a # r \<and> is_digit a \<and> v = digit_val a)"
  shows "\<exists>t. s = t @ r \<and> digits 2 t \<and> v = dec t"
  using assms
proof (elim disjE exE conjE)
  fix a b
  assume "s = a # b # r" "is_digit a" "is_digit b" "v = 10 * digit_val a + digit_val b"
  then show ?thesis
    by (intro exI [of _ "[a, b]"]) (simp add: dec2 digits_intros)
next
  fix a
  assume "s = a # r" "is_digit a" "v = digit_val a"
  then show ?thesis
    by (intro exI [of _ "[a]"]) (simp add: dec1 digits_intros)
qed

lemma grp_m_text:
  assumes "(v, r) \<in> set (grp_m s)"
  shows "\<exists>t. s = t @ r \<and> digits 2 t \<and> v = dec t \<and> 1 \<le> v \<and> v \<le> 12"
  using grp_m_mem [OF assms] two_or_one_text [of s r v] by blast

lemma grp_H_text:
  assumes "(v, r) \<in> set (grp_H s)"
  shows "\<exists>t. s = t @ r \<and> digits 2 t \<and> v = dec t \<and> v \<le> 23"
  using grp_H_mem [OF assms] two_or_one_text [of s r v] by blast

lemma grp_M_text:
  assumes "(v, r) \<in> set (grp_M s)"
  shows "\<exists>t. s = t @ r \<and> digits 2 t \<and> v = dec t \<and> v \<le> 59"
  using grp_M_mem [OF assms] two_or_one_text [of s r v] by blast

lemma grp_d_text:
  assumes "(v, r) \<in> set (grp_d s)"
  shows "\<exists>b t. s = b @ t @ r \<and> (b = [] \<or> b = '' '' \<and> length t = 1) \<and> digits 2 t \<and>
           v = dec t \<and> 1 \<le> v \<and> v \<le> 31"
proof -
  from grp_d_mem [OF assms] have rng: "1 \<le> v" "v \<le> 31"
    and c: "((\<exists>a b. s = a # b # r \<and> is_digit a \<and> is_digit b \<and> v = 10 * digit_val a + digit_val b) \<or>
       (\<exists>a. s = a # r \<and> is_digit a \<and> v = digit_val a)) \<or>
     (\<exists>a. s = CHR '' '' # a # r \<and> is_digit a \<and> v = digit_val a)"
    by blast+
  from c show ?thesis
  proof
    assume "(\<exists>a b. s = a # b # r \<and> is_digit a \<and> is_digit b \<and> v = 10 * digit_val a + digit_val b) \<or>
       (\<exists>a. s = a # r \<and> is_digit a \<and> v = digit_val a)"
    then obtain t where "s = t @ r" "digits 2 t" "v = dec t"
      using two_or_one_text by blast
    with rng show ?thesis
      by (intro exI [of _ "[]"] exI [of _ t]) simp
  next
    assume "\<exists>a. s = CHR '' '' # a # r \<and> is_digit a \<and> v = digit_val a"
    then obtain a where "s = CHR '' '' # a # r" "is_digit a" "v = digit_val a"
      by blast
    with rng show ?thesis
      by (intro exI [of _ "'' ''"] exI [of _ "[a]"]) (simp add: dec1 digits_intros)
  qed
qed

lemma format_regex_text:
  assumes "(d, r) \<in> set (format_regex s)"
  shows "\<exists>Y m b dd sp H M.
      s = Y @ ''-'' @ m @ ''-'' @ b @ dd @ sp @ H @ '':'' @ M @ r \<and>
      length Y = 4 \<and> list_all is_digit Y \<and> digits 2 m \<and>
      (b = [] \<or> b = '' '' \<and> length dd = 1) \<and> digits 2 dd \<and>
      sp \<noteq> [] \<and> list_all is_space sp \<and> digits 2 H \<and> digits 2 M \<and>
      d = \<lparr>year = dec Y, month = dec m, day = dec dd, hour = dec H, minute = dec M\<rparr> \<and>
      year d \<le> 9999 \<and> 1 \<le> month d \<and> month d \<le> 12 \<and> 1 \<le> day d \<and> day d \<le> 31 \<and>
      hour d \<le> 23 \<and> minute d \<le> 59"
proof -
  from assms obtain y r1 m r2 dd r3 u r4 h r5 mi
    where Y: "(y, CHR ''-'' # r1) \<in> set (grp_Y s)"
    and M: "(m, CHR ''-'' # r2) \<in> set (grp_m r1)"
    and D: "(dd, r3) \<in> set (grp_d r2)" and S: "(u, r4) \<in> set (re_spaces r3)"
    and H: "(h, CHR '':'' # r5) \<in> set (grp_H r4)" and N: "(mi, r) \<in> set (grp_M r5)"
    and d: "d = \<lparr>year = y, month = m, day = dd, hour = h, minute = mi\<rparr>"
    by (rule format_regex_mem)
  from grp_Y_text [OF Y] obtain tY
    where tY: "s = tY @ CHR ''-'' # r1" "length tY = 4" "list_all is_digit tY" "y = dec tY"
      "y \<le> 9999"
    by blast
  from grp_m_text [OF M] obtain tm
    where tm: "r1 = tm @ CHR ''-'' # r2" "digits 2 tm" "m = dec tm" "1 \<le> m" "m \<le> 12"
    by blast
  from grp_d_text [OF D] obtain b td
    where td: "r2 = b @ td @ r3" "b = [] \<or> b = '' '' \<and> length td = 1" "digits 2 td"
      "dd = dec td" "1 \<le> dd" "dd \<le> 31"
    by blast
  from re_spaces_mem [OF S] obtain sp
    where sp: "sp \<noteq> []" "list_all is_space sp" "r3 = sp @ r4"
    by blast
  from grp_H_text [OF H] obtain tH
    where tH: "r4 = tH @ CHR '':'' # r5" "digits 2 tH" "h = dec tH" "h \<le> 23"
    by blast
  from grp_M_text [OF N] obtain tM
    where tM: "r5 = tM @ r" "digits 2 tM" "mi = dec tM" "mi \<le> 59"
    by blast
  have "s = tY @ ''-'' @ tm @ ''-'' @ b @ td @ sp @ tH @ '':'' @ tM @ r"
    by (simp add: tY(1) tm(1) td(1) sp(3) tH(1) tM(1))
  moreover have "d = \<lparr>year = dec tY, month = dec tm, day = dec td, hour = dec tH,
      minute = dec tM\<rparr>"
    by (simp add: d tY(4) tm(3) td(4) tH(3) tM(3))
  moreover have "year d \<le> 9999" "1 \<le> month d" "month d \<le> 12" "1 \<le> day d" "day d \<le> 31"
    "hour d \<le> 23" "minute d \<le> 59"
    using tY(5) tm(4,5) td(5,6) tH(4) tM(4) by (simp_all add: d)
  ultimately show ?thesis
    using tY(2,3) tm(2) td(2,3) sp(1,2) tH(2) tM(2) by blast
qed

lemma parse_iso_datetime_Inr:
  assumes "parse_iso_datetime a = Inr d"
  shows "strptime (strip a) = Inr d"
  using assms by (auto simp: parse_iso_datetime_def Let_def split: if_splits sum.splits)

lemma parse_iso_datetime_sound:
  assumes "parse_iso_datetime a = Inr d"
  shows "\<exists>Y m b dd sp H M.
      strip a = Y @ ''-'' @ m @ ''-'' @ b @ dd @ sp @ H @ '':'' @ M \<and>
      length Y = 4 \<and> list_all is_digit Y \<and> digits 2 m \<and>
      (b = [] \<or> b = '' '' \<and> length dd = 1) \<and> digits 2 dd \<and>
      sp \<noteq> [] \<and> list_all is_space sp \<and> digits 2 H \<and> digits 2 M \<and>
      d = \<lparr>year = dec Y, month = dec m, day = dec dd, hour = dec H, minute = dec M\<rparr> \<and>
      real_datetime d"
proof -
  note p = strptime_Inr [OF parse_iso_datetime_Inr [OF assms] ]
  from format_regex_text [OF p(1)] obtain Y m b dd sp H M
    where t: "strip a = Y @ ''-'' @ m @ ''-'' @ b @ dd @ sp @ H @ '':'' @ M @ []"
      "length Y = 4" "list_all is_digit Y" "digits 2 m"
      "b = [] \<or> b = '' '' \<and> length dd = 1" "digits 2 dd"
      "sp \<noteq> []" "list_all is_space sp" "digits 2 H" "digits 2 M"
      "d = \<lparr>year = dec Y, month = dec m, day = dec dd, hour = dec H, minute = dec M\<rparr>"
    and rng: "year d \<le> 9999" "1 \<le> month d" "month d \<le> 12" "1 \<le> day d"
      "hour d \<le> 23" "minute d \<le> 59"
    by blast
  from rng p(2,3) have "real_datetime d"
    by (simp add: real_datetime_def)
  moreover from t(1) have "strip a = Y @ ''-'' @ m @ ''-'' @ b @ dd @ sp @ H @ '':'' @ M"
    by simp
  ultimately show ?thesis
    using t(2-11) by blast
qed

lemma spec_present_text:
  assumes "spec_present row f"
  obtains v where "map_of row f = Some (Some v)" "trimmed row f = strip v" "strip v \<noteq> []"
  using assms by (auto simp: spec_present_def trimmed_def split: option.splits)

lemma parse_field_spec:
  assumes "spec_present row f" "spec_datetime (trimmed row f)"
    "1 \<le> year (spec_datetime_value (trimmed row f))"
  shows "parse_field row f = Inr (spec_datetime_value (trimmed row f))"
proof -
  from assms(1) obtain v where v: "map_of row f = Some (Some v)" "trimmed row f = strip v"
    by (rule spec_present_text)
  with assms(2,3) show ?thesis
    by (simp add: parse_field_def parse_iso_datetime_spec)
qed

lemma dt_less_year: "dt_less a b \<Longrightarrow> year a \<le> year b"
  by (auto simp: dt_less_def dt_key_def less_prod_def)

lemmas spec_dt_defs = spec_datetime_def spec_datetime_value_def sub_def dec_def
  days_in_month_def is_leap_def

lemma spec_datetime_samples:
  "spec_datetime ''2025-11-20 08:00''" "spec_datetime ''2025-11-20 11:00''"
  "spec_datetime ''2025-11-23 07:30''" "spec_datetime ''0000-01-01 00:00''"
  "spec_datetime ''0000-01-01 00:01''" "\<not> spec_datetime ''2025-1-5 8:5''"
  by (simp_all add: spec_dt_defs text_defs)

lemma spec_value_samples:
  "spec_datetime_value ''2025-11-20 08:00'' = \<lparr>year = 2025, month = 11, day = 20, hour = 8, minute = 0\<rparr>"
  "spec_datetime_value ''2025-11-20 11:00'' = \<lparr>year = 2025, month = 11, day = 20, hour = 11, minute = 0\<rparr>"
  "spec_datetime_value ''2025-11-23 07:30'' = \<lparr>year = 2025, month = 11, day = 23, hour = 7, minute = 30\<rparr>"
  "spec_datetime_value ''0000-01-01 00:00'' = \<lparr>year = 0, month = 1, day = 1, hour = 0, minute = 0\<rparr>"
  "spec_datetime_value ''0000-01-01 00:01'' = \<lparr>year = 0, month = 1, day = 1, hour = 0, minute = 1\<rparr>"
  by (simp_all add: spec_dt_defs text_defs)

lemma strip_samples:
  "strip ''2025-11-20 08:00'' = ''2025-11-20 08:00''"
  "strip ''2025-11-20 11:00'' = ''2025-11-20 11:00''"
  "strip ''2025-11-23 07:30'' = ''2025-11-23 07:30''"
  "strip ''0000-01-01 00:00'' = ''0000-01-01 00:00''"
  "strip ''0000-01-01 00:01'' = ''0000-01-01 00:01''"
  "strip ''2025-1-5 8:5'' = ''2025-1-5 8:5''"
  "strip ''   '' = []"
  "strip ''2025-11-23T07:30:00'' = ''2025-11-23T07:30:00''"
  "strip ''2025-11-23 07:30:00'' = ''2025-11-23 07:30:00''"
  "strip ''  2025-11-20 08:00'' = ''2025-11-20 08:00''"
  "strip ''2025-11-20 11:00  '' = ''2025-11-20 11:00''"
  "strip '' 199.99 '' = ''199.99''" "strip ''199.99'' = ''199.99''"
  "strip '' AA100 '' = ''AA100''" "strip ''AA100'' = ''AA100''"
  "strip ''JFK '' = ''JFK''" "strip ''JFK'' = ''JFK''"
  "strip '' LAX'' = ''LAX''" "strip ''LAX'' = ''LAX''"
  by (simp_all add: text_defs)

lemma spec_price_199_99: "spec_price ''199.99''"
  by (simp add: spec_price_def py_float_199_99 price_199_99_def)

lemma out_of_range_samples:
  "strip ''2025-02-30 08:00'' = ''2025-02-30 08:00''"
  "strip ''2025-13-01 08:00'' = ''2025-13-01 08:00''"
  "strip ''2025-11-20 24:00'' = ''2025-11-20 24:00''"
  "strip ''2025-11-20 08:60'' = ''2025-11-20 08:60''"
  "spec_shape ''2025-02-30 08:00''" "\<not> spec_datetime ''2025-02-30 08:00''"
  "spec_shape ''2025-13-01 08:00''" "\<not> spec_datetime ''2025-13-01 08:00''"
  "spec_shape ''2025-11-20 24:00''" "\<not> spec_datetime ''2025-11-20 24:00''"
  "spec_shape ''2025-11-20 08:60''" "\<not> spec_datetime ''2025-11-20 08:60''"
  by (simp_all add: spec_dt_defs spec_shape_def text_defs)

lemma parse_lenient:
  "parse_iso_datetime ''2025-1-5 8:5'' = Inr \<lparr>year = 2025, month = 1, day = 5, hour = 8, minute = 5\<rparr>"
  by (simp add: parse_iso_datetime_def text_defs re_defs)

lemma parse_year0:
  "parse_iso_datetime ''0000-01-01 00:00'' = Inl (format_error ''0000-01-01 00:00'')"
  by (simp add: parse_iso_datetime_def text_defs re_defs)

lemma row_year0_spec: "spec_valid_row row_year0"
  by (simp add: spec_valid_row_def row_year0_def spec_row_defs strip_samples
      spec_datetime_samples spec_value_samples spec_price_199_99 class_defs text_defs
      dt_less_def dt_key_def)

lemma year999_samples:
  "spec_datetime ''0999-12-31 23:00''" "spec_datetime ''1000-01-01 01:00''"
  "spec_datetime_value ''0999-12-31 23:00'' = \<lparr>year = 999, month = 12, day = 31, hour = 23, minute = 0\<rparr>"
  "spec_datetime_value ''1000-01-01 01:00'' = \<lparr>year = 1000, month = 1, day = 1, hour = 1, minute = 0\<rparr>"
  "strip ''0999-12-31 23:00'' = ''0999-12-31 23:00''"
  "strip ''1000-01-01 01:00'' = ''1000-01-01 01:00''"
  "parse_iso_datetime ''0999-12-31 23:00'' = Inr \<lparr>year = 999, month = 12, day = 31, hour = 23, minute = 0\<rparr>"
  "parse_iso_datetime ''1000-01-01 01:00'' = Inr \<lparr>year = 1000, month = 1, day = 1, hour = 1, minute = 0\<rparr>"
  by (simp_all add: spec_dt_defs parse_iso_datetime_def text_defs re_defs)

lemma row_year999_spec: "spec_valid_row row_year999"
  by (simp add: spec_valid_row_def row_year999_def spec_row_defs strip_samples
      year999_samples spec_price_199_99 class_defs text_defs dt_less_def dt_key_def)

lemma row_padded_spec: "spec_valid_row row_padded"
  by (simp add: spec_valid_row_def row_padded_def spec_rules_1_to_3_def spec_present_def
      trimmed_def spec_flight_id_def spec_airport_def REQUIRED_FIELDS_def strip_samples
      spec_datetime_samples spec_value_samples spec_price_199_99 class_defs is_digit_def
      between_def code_def dt_less_def dt_key_def)

lemma row_padded_trimmed:
  "trimmed row_padded ''flight_id'' = ''AA100''" "trimmed row_padded ''origin'' = ''JFK''"
  "trimmed row_padded ''destination'' = ''LAX''"
  "trimmed row_padded ''departure_datetime'' = ''2025-11-20 08:00''"
  "trimmed row_padded ''arrival_datetime'' = ''2025-11-20 11:00''"
  "trimmed row_padded ''price'' = ''199.99''"
  by (simp_all add: row_padded_def trimmed_def strip_samples)

lemma row_T_separator_rules: "checks_1_to_3 row_T_separator"
  by (rule spec_rules_checks) (simp add: row_T_separator_def spec_row_defs class_defs text_defs)

lemma row_seconds_rules: "checks_1_to_3 row_seconds"
  by (rule spec_rules_checks) (simp add: row_seconds_def spec_row_defs class_defs text_defs)

lemma parse_bad_samples:
  "parse_iso_datetime ''2025-11-23T07:30:00'' = Inl (format_error ''2025-11-23T07:30:00'')"
  "parse_iso_datetime ''2025-11-23 07:30:00'' = Inl (format_error ''2025-11-23 07:30:00'')"
  by (simp_all add: parse_iso_datetime_def text_defs re_defs)

section \<open>The price of an accepted row\<close>

lemma validate_row_price_rule:
  assumes "validate_row row file lineno = (Some fl, msg)"
  shows "\<exists>x. py_float (trimmed row ''price'') = Inr x \<and> \<not> float_le0 x \<and>
             map_of fl ''price'' = Some (PFloat x)"
proof -
  have c: "checks_1_to_3 row"
  proof (rule ccontr)
    assume "\<not> checks_1_to_3 row"
    then have "fst (validate_row row file lineno) = None"
      by (rule validate_row_checks_fail)
    with assms show False by simp
  qed
  from assms show ?thesis
    unfolding validate_row_after_checks [OF c]
    by (auto simp: map_of_add_extras split: sum.splits if_splits)
qed

section \<open>Claims\<close>

text \<open>
  C1 (the code does not do this). The claim: for records produced by \<open>validate_row\<close>,
  which store the departure under \<open>departure_datetime\<close>, a \<open>departure_between\<close> query
  returns the records whose departure lies within the bounds. The record that
  \<open>validate_row\<close> produces for the row of the repository's test has no key \<open>departure\<close>,
  which is the key \<open>apply_filters\<close> reads: the November query raises \<open>KeyError\<close> instead
  of returning the record.
\<close>

theorem apply_filters_departure_between_raises:
  "validate_row row_AA100 ''sample'' 1 = (Some flight_AA100, []) \<and>
   apply_filters rp [flight_AA100] query_november = Inl (KeyError ''departure'')"
  by (simp add: validate_row_AA100 flight_AA100_def sample_flight_def query_november_def apply_filters_def
        filter_items_def eq_filters_def departure_between_def unpack2_def parse_value_def
        flight_datetime_def parse_samples)

text \<open>
  C2. When a required field is absent, \<open>None\<close> or blank after trimming, \<open>validate_row\<close>
  rejects the row with the message \<open>missing required field '<f>'\<close>, where \<open><f>\<close> is the
  first field of \<open>REQUIRED_FIELDS\<close> that fails the presence rule: it stands at or before
  the given field, every field before it is present, and it is the only reason reported.
\<close>

theorem validate_row_missing_field:
  assumes "k < length REQUIRED_FIELDS"
    and "map_of row (REQUIRED_FIELDS ! k) = None \<or> map_of row (REQUIRED_FIELDS ! k) = Some None \<or>
         (\<exists>v. map_of row (REQUIRED_FIELDS ! k) = Some (Some v) \<and> strip v = [])"
  shows "\<exists>i\<le>k. (\<forall>j<i. spec_present row (REQUIRED_FIELDS ! j)) \<and>
           \<not> spec_present row (REQUIRED_FIELDS ! i) \<and>
           validate_row row file lineno =
             (None, ''missing required field '' @ [CHR 39] @ REQUIRED_FIELDS ! i @ [CHR 39])"
proof -
  from assms(2) have m: "missing row (REQUIRED_FIELDS ! k)"
    by (auto simp: missing_def str_of_def)
  from assms(1) have "REQUIRED_FIELDS ! k \<in> set REQUIRED_FIELDS"
    by (rule nth_mem)
  with m have "\<exists>x\<in>set REQUIRED_FIELDS. missing row x"
    by blast
  then have "find (missing row) REQUIRED_FIELDS \<noteq> None"
    unfolding find_None_iff by blast
  then obtain g where g: "find (missing row) REQUIRED_FIELDS = Some g"
    by blast
  then obtain i where i: "i < length REQUIRED_FIELDS" "missing row (REQUIRED_FIELDS ! i)"
    "g = REQUIRED_FIELDS ! i" "\<forall>j<i. \<not> missing row (REQUIRED_FIELDS ! j)"
    by (auto simp: find_Some_iff)
  have "i \<le> k"
  proof (rule ccontr)
    assume "\<not> i \<le> k"
    then have "k < i" by simp
    with i(4) m show False by blast
  qed
  moreover have "validate_row row file lineno =
      (None, ''missing required field '' @ [CHR 39] @ REQUIRED_FIELDS ! i @ [CHR 39])"
    by (simp add: validate_row_def g i(3))
  ultimately show ?thesis
    using i by (auto simp: missing_iff)
qed

theorem validate_row_missing_field_witness:
  "1 < length REQUIRED_FIELDS \<and> REQUIRED_FIELDS ! 1 = ''origin'' \<and>
   map_of row_no_origin ''origin'' = Some (Some []) \<and> strip [] = [] \<and>
   validate_row row_no_origin ''sample'' 2 =
     (None, ''missing required field '' @ [CHR 39] @ ''origin'' @ [CHR 39])"
proof -
  have k: "1 < length REQUIRED_FIELDS" and f: "REQUIRED_FIELDS ! 1 = ''origin''"
    by (simp_all add: REQUIRED_FIELDS_def)
  have v: "map_of row_no_origin ''origin'' = Some (Some [])" and s: "strip [] = []"
    by (simp_all add: row_no_origin_def sample_row_def text_defs)
  have h: "map_of row_no_origin (REQUIRED_FIELDS ! 1) = None \<or>
      map_of row_no_origin (REQUIRED_FIELDS ! 1) = Some None \<or>
      (\<exists>v. map_of row_no_origin (REQUIRED_FIELDS ! 1) = Some (Some v) \<and> strip v = [])"
    unfolding f using v s by blast
  have p: "spec_present row_no_origin (REQUIRED_FIELDS ! 0)"
    by (simp add: row_no_origin_def spec_row_defs text_defs)
  from validate_row_missing_field [OF k h, of "''sample''" 2]
  obtain i where i: "i \<le> 1" "\<not> spec_present row_no_origin (REQUIRED_FIELDS ! i)"
    "validate_row row_no_origin ''sample'' 2 =
       (None, ''missing required field '' @ [CHR 39] @ REQUIRED_FIELDS ! i @ [CHR 39])"
    by blast
  from i(1,2) p have "i = 1"
    by (cases "i = 0") auto
  with i(3) k f v s show ?thesis
    by simp
qed

text \<open>
  C3 (amended). The claim as stated fails in both directions: the text \<open>2025-1-5 8:5\<close> is
  not of the form \<open>YYYY-MM-DD HH:MM\<close> and is accepted, and the text
  \<open>0000-01-01 00:00\<close> is of that form and is rejected.
\<close>

theorem parse_iso_datetime_not_exact:
  "parse_iso_datetime ''2025-1-5 8:5'' =
     Inr \<lparr>year = 2025, month = 1, day = 5, hour = 8, minute = 5\<rparr> \<and>
   \<not> spec_datetime (strip ''2025-1-5 8:5'') \<and>
   spec_datetime (strip ''0000-01-01 00:00'') \<and>
   parse_iso_datetime ''0000-01-01 00:00'' = Inl (format_error ''0000-01-01 00:00'')"
  by (simp add: parse_lenient parse_year0 strip_samples spec_datetime_samples)

text \<open>
  C3, as the code has it. After trimming, \<open>parse_iso_datetime\<close> accepts every text of
  the form \<open>YYYY-MM-DD HH:MM\<close> whose year is not 0000 and returns that date and time. It
  rejects the empty or blank text, every text with a character other than a digit,
  \<open>-\<close>, \<open>:\<close> or white space (so every form with a \<open>T\<close>), every text of the form
  followed by more characters (so every form with seconds), the year 0000, and every
  text that has the sixteen characters of the layout with a month, day, hour or minute
  out of range (month 13, the 30th of February, hour 24, minute 60). Whatever it
  accepts is made of a four-digit year, \<open>-\<close>, a month, \<open>-\<close>, a day, white space, an
  hour, \<open>:\<close> and a minute, each of the last four on one or two digits (or the day on a
  blank and a digit), and the result is the date and time so written, one that exists.
  In \<open>validate_row\<close> a rejected departure or arrival gives the message that starts
  with the field name and ends with the trimmed text. Nothing is promised here for a
  text that differs from the form only in padding or spacing and writes a date and
  time that exists.
\<close>

theorem parse_iso_datetime_grammar:
  "(spec_datetime (strip s) \<and> 1 \<le> year (spec_datetime_value (strip s)) \<longrightarrow>
      parse_iso_datetime s = Inr (spec_datetime_value (strip s))) \<and>
   (strip b = [] \<longrightarrow> parse_iso_datetime b = Inl (ValueError ''empty datetime'')) \<and>
   (\<not> list_all dt_char (strip c) \<longrightarrow> parse_iso_datetime c = Inl (format_error (strip c))) \<and>
   (spec_datetime t \<and> r \<noteq> [] \<and> strip u = t @ r \<longrightarrow>
      parse_iso_datetime u = Inl (format_error (strip u))) \<and>
   (spec_datetime (strip z) \<and> year (spec_datetime_value (strip z)) = 0 \<longrightarrow>
      parse_iso_datetime z = Inl (format_error (strip z))) \<and>
   (spec_shape (strip p) \<and> \<not> spec_datetime (strip p) \<longrightarrow>
      parse_iso_datetime p = Inl (format_error (strip p))) \<and>
   (parse_iso_datetime a = Inr q \<longrightarrow>
      (\<exists>Y mo bl dy sp H M.
         strip a = Y @ ''-'' @ mo @ ''-'' @ bl @ dy @ sp @ H @ '':'' @ M \<and>
         length Y = 4 \<and> list_all is_digit Y \<and> digits 2 mo \<and>
         (bl = [] \<or> bl = '' '' \<and> length dy = 1) \<and> digits 2 dy \<and>
         sp \<noteq> [] \<and> list_all is_space sp \<and> digits 2 H \<and> digits 2 M \<and>
         q = \<lparr>year = dec Y, month = dec mo, day = dec dy, hour = dec H, minute = dec M\<rparr> \<and>
         real_datetime q)) \<and>
   (checks_1_to_3 row \<and> map_of row ''departure_datetime'' = Some (Some v) \<and>
    parse_iso_datetime v = Inl e \<longrightarrow>
      validate_row row file lineno =
        (None, ''departure_datetime parse error: invalid datetime format (expected '' @
               [CHR 39] @ ''YYYY-MM-DD HH:MM'' @ [CHR 39] @ ''): '' @ strip v)) \<and>
   (checks_1_to_3 row' \<and> parse_field row' ''departure_datetime'' = Inr d \<and>
    map_of row' ''arrival_datetime'' = Some (Some w) \<and> parse_iso_datetime w = Inl e' \<longrightarrow>
      validate_row row' file' lineno' =
        (None, ''arrival_datetime parse error: invalid datetime format (expected '' @
               [CHR 39] @ ''YYYY-MM-DD HH:MM'' @ [CHR 39] @ ''): '' @ strip w))"
proof (intro conjI impI)
  assume "spec_datetime (strip s) \<and> 1 \<le> year (spec_datetime_value (strip s))"
  then show "parse_iso_datetime s = Inr (spec_datetime_value (strip s))"
    by (simp add: parse_iso_datetime_spec)
next
  assume "strip b = []"
  then show "parse_iso_datetime b = Inl (ValueError ''empty datetime'')"
    by (simp add: parse_iso_datetime_def)
next
  assume c: "\<not> list_all dt_char (strip c)"
  then have "strip c \<noteq> []"
    by auto
  moreover from c obtain x where "strptime (strip c) = Inl x"
    using strptime_bad_char by blast
  ultimately show "parse_iso_datetime c = Inl (format_error (strip c))"
    by (rule parse_iso_datetime_rejects)
next
  assume a: "spec_datetime t \<and> r \<noteq> [] \<and> strip u = t @ r"
  then obtain x where "strptime (t @ r) = Inl x"
    using strptime_trailing by blast
  with a show "parse_iso_datetime u = Inl (format_error (strip u))"
    by (intro parse_iso_datetime_rejects) simp_all
next
  assume a: "spec_datetime (strip z) \<and> year (spec_datetime_value (strip z)) = 0"
  then obtain x where "strptime (strip z) = Inl x"
    using strptime_year0 by blast
  with a show "parse_iso_datetime z = Inl (format_error (strip z))"
    by (intro parse_iso_datetime_rejects spec_datetime_nonempty) simp_all
next
  assume "spec_shape (strip p) \<and> \<not> spec_datetime (strip p)"
  then show "parse_iso_datetime p = Inl (format_error (strip p))"
    by (simp add: parse_iso_datetime_out_of_range)
next
  assume "parse_iso_datetime a = Inr q"
  then show "\<exists>Y mo bl dy sp H M.
         strip a = Y @ ''-'' @ mo @ ''-'' @ bl @ dy @ sp @ H @ '':'' @ M \<and>
         length Y = 4 \<and> list_all is_digit Y \<and> digits 2 mo \<and>
         (bl = [] \<or> bl = '' '' \<and> length dy = 1) \<and> digits 2 dy \<and>
         sp \<noteq> [] \<and> list_all is_space sp \<and> digits 2 H \<and> digits 2 M \<and>
         q = \<lparr>year = dec Y, month = dec mo, day = dec dy, hour = dec H, minute = dec M\<rparr> \<and>
         real_datetime q"
    by (rule parse_iso_datetime_sound)
next
  assume a: "checks_1_to_3 row \<and> map_of row ''departure_datetime'' = Some (Some v) \<and>
    parse_iso_datetime v = Inl e"
  then have "spec_present row ''departure_datetime''"
    by (simp add: checks_1_to_3_def missing_iff REQUIRED_FIELDS_def)
  with a have "strip v \<noteq> []"
    by (simp add: spec_present_def)
  with a have "e = format_error (strip v)"
    by (simp add: parse_iso_datetime_error)
  with a show "validate_row row file lineno =
        (None, ''departure_datetime parse error: invalid datetime format (expected '' @
               [CHR 39] @ ''YYYY-MM-DD HH:MM'' @ [CHR 39] @ ''): '' @ strip v)"
    by (simp add: validate_row_after_checks parse_field_def format_error_def)
next
  assume a: "checks_1_to_3 row' \<and> parse_field row' ''departure_datetime'' = Inr d \<and>
    map_of row' ''arrival_datetime'' = Some (Some w) \<and> parse_iso_datetime w = Inl e'"
  then have "spec_present row' ''arrival_datetime''"
    by (simp add: checks_1_to_3_def missing_iff REQUIRED_FIELDS_def)
  with a have "strip w \<noteq> []"
    by (simp add: spec_present_def)
  with a have "e' = format_error (strip w)"
    by (simp add: parse_iso_datetime_error)
  with a show "validate_row row' file' lineno' =
        (None, ''arrival_datetime parse error: invalid datetime format (expected '' @
               [CHR 39] @ ''YYYY-MM-DD HH:MM'' @ [CHR 39] @ ''): '' @ strip w)"
    by (simp add: validate_row_after_checks parse_field_def format_error_def)
qed

theorem parse_iso_datetime_grammar_witness:
  "spec_datetime (strip ''2025-11-23 07:30'') \<and>
   1 \<le> year (spec_datetime_value (strip ''2025-11-23 07:30'')) \<and>
   parse_iso_datetime ''2025-11-23 07:30'' =
     Inr \<lparr>year = 2025, month = 11, day = 23, hour = 7, minute = 30\<rparr> \<and>
   strip ''   '' = [] \<and>
   parse_iso_datetime ''   '' = Inl (ValueError ''empty datetime'') \<and>
   \<not> list_all dt_char (strip ''2025-11-23T07:30:00'') \<and>
   parse_iso_datetime ''2025-11-23T07:30:00'' = Inl (format_error ''2025-11-23T07:30:00'') \<and>
   spec_datetime ''2025-11-23 07:30'' \<and> '':00'' \<noteq> [] \<and>
   strip ''2025-11-23 07:30:00'' = ''2025-11-23 07:30'' @ '':00'' \<and>
   parse_iso_datetime ''2025-11-23 07:30:00'' = Inl (format_error ''2025-11-23 07:30:00'') \<and>
   spec_datetime (strip ''0000-01-01 00:00'') \<and>
   year (spec_datetime_value (strip ''0000-01-01 00:00'')) = 0 \<and>
   parse_iso_datetime ''0000-01-01 00:00'' = Inl (format_error ''0000-01-01 00:00'') \<and>
   spec_shape (strip ''2025-02-30 08:00'') \<and> \<not> spec_datetime (strip ''2025-02-30 08:00'') \<and>
   parse_iso_datetime ''2025-02-30 08:00'' = Inl (format_error ''2025-02-30 08:00'') \<and>
   spec_shape (strip ''2025-13-01 08:00'') \<and> \<not> spec_datetime (strip ''2025-13-01 08:00'') \<and>
   parse_iso_datetime ''2025-13-01 08:00'' = Inl (format_error ''2025-13-01 08:00'') \<and>
   spec_shape (strip ''2025-11-20 24:00'') \<and> \<not> spec_datetime (strip ''2025-11-20 24:00'') \<and>
   parse_iso_datetime ''2025-11-20 24:00'' = Inl (format_error ''2025-11-20 24:00'') \<and>
   spec_shape (strip ''2025-11-20 08:60'') \<and> \<not> spec_datetime (strip ''2025-11-20 08:60'') \<and>
   parse_iso_datetime ''2025-11-20 08:60'' = Inl (format_error ''2025-11-20 08:60'') \<and>
   (\<exists>Y mo bl dy sp H M.
      strip ''2025-11-23 07:30'' = Y @ ''-'' @ mo @ ''-'' @ bl @ dy @ sp @ H @ '':'' @ M \<and>
      length Y = 4 \<and> list_all is_digit Y \<and> digits 2 mo \<and>
      (bl = [] \<or> bl = '' '' \<and> length dy = 1) \<and> digits 2 dy \<and>
      sp \<noteq> [] \<and> list_all is_space sp \<and> digits 2 H \<and> digits 2 M \<and>
      \<lparr>year = 2025, month = 11, day = 23, hour = 7, minute = 30\<rparr> =
        \<lparr>year = dec Y, month = dec mo, day = dec dy, hour = dec H, minute = dec M\<rparr> \<and>
      real_datetime \<lparr>year = 2025, month = 11, day = 23, hour = 7, minute = 30\<rparr>) \<and>
   checks_1_to_3 row_T_separator \<and>
   map_of row_T_separator ''departure_datetime'' = Some (Some ''2025-11-23T07:30:00'') \<and>
   validate_row row_T_separator ''sample'' 2 =
     (None, ''departure_datetime parse error: invalid datetime format (expected '' @
            [CHR 39] @ ''YYYY-MM-DD HH:MM'' @ [CHR 39] @ ''): 2025-11-23T07:30:00'') \<and>
   checks_1_to_3 row_seconds \<and>
   parse_field row_seconds ''departure_datetime'' =
     Inr \<lparr>year = 2025, month = 11, day = 20, hour = 8, minute = 0\<rparr> \<and>
   map_of row_seconds ''arrival_datetime'' = Some (Some ''2025-11-23 07:30:00'') \<and>
   validate_row row_seconds ''sample'' 3 =
     (None, ''arrival_datetime parse error: invalid datetime format (expected '' @
            [CHR 39] @ ''YYYY-MM-DD HH:MM'' @ [CHR 39] @ ''): 2025-11-23 07:30:00'')"
proof -
  let ?T = "''2025-11-23T07:30:00''"
  let ?S = "''2025-11-23 07:30:00''"
  let ?D = "\<lparr>year = 2025, month = 11, day = 23, hour = 7, minute = 30\<rparr>"
  note g = parse_iso_datetime_grammar [of "''2025-11-23 07:30''" "''   ''" ?T
      "''2025-11-23 07:30''" "'':00''" ?S "''0000-01-01 00:00''" "''2025-02-30 08:00''"
      "''2025-11-23 07:30''" ?D
      row_T_separator ?T "format_error ?T" "''sample''" 2
      row_seconds "\<lparr>year = 2025, month = 11, day = 20, hour = 8, minute = 0\<rparr>" ?S
      "format_error ?S" "''sample''" 3]
  note g1 = g [THEN conjunct1, THEN mp]
  note g2 = g [THEN conjunct2, THEN conjunct1, THEN mp]
  note g3 = g [THEN conjunct2, THEN conjunct2, THEN conjunct1, THEN mp]
  note g4 = g [THEN conjunct2, THEN conjunct2, THEN conjunct2, THEN conjunct1, THEN mp]
  note g5 = g [THEN conjunct2, THEN conjunct2, THEN conjunct2, THEN conjunct2, THEN conjunct1,
      THEN mp]
  note g6 = g [THEN conjunct2, THEN conjunct2, THEN conjunct2, THEN conjunct2, THEN conjunct2,
      THEN conjunct1, THEN mp]
  note g7 = g [THEN conjunct2, THEN conjunct2, THEN conjunct2, THEN conjunct2, THEN conjunct2,
      THEN conjunct2, THEN conjunct1, THEN mp]
  note g8 = g [THEN conjunct2, THEN conjunct2, THEN conjunct2, THEN conjunct2, THEN conjunct2,
      THEN conjunct2, THEN conjunct2, THEN conjunct1, THEN mp]
  note g9 = g [THEN conjunct2, THEN conjunct2, THEN conjunct2, THEN conjunct2, THEN conjunct2,
      THEN conjunct2, THEN conjunct2, THEN conjunct2, THEN mp]
  have h1: "spec_datetime (strip ''2025-11-23 07:30'')"
    "1 \<le> year (spec_datetime_value (strip ''2025-11-23 07:30''))"
    by (simp_all add: strip_samples spec_datetime_samples spec_value_samples)
  have h2: "strip ''   '' = []"
    by (simp add: strip_samples)
  have h3: "\<not> list_all dt_char (strip ?T)"
    by (simp add: strip_samples dt_char_def is_digit_def between_def is_space_def code_def)
  have h4: "spec_datetime ''2025-11-23 07:30''" "'':00'' \<noteq> []"
    "strip ?S = ''2025-11-23 07:30'' @ '':00''"
    by (simp_all add: strip_samples spec_datetime_samples)
  have h5: "spec_datetime (strip ''0000-01-01 00:00'')"
    "year (spec_datetime_value (strip ''0000-01-01 00:00'')) = 0"
    by (simp_all add: strip_samples spec_datetime_samples spec_value_samples)
  have o1: "spec_shape (strip ''2025-02-30 08:00'')" "\<not> spec_datetime (strip ''2025-02-30 08:00'')"
    and o2: "spec_shape (strip ''2025-13-01 08:00'')" "\<not> spec_datetime (strip ''2025-13-01 08:00'')"
    and o3: "spec_shape (strip ''2025-11-20 24:00'')" "\<not> spec_datetime (strip ''2025-11-20 24:00'')"
    and o4: "spec_shape (strip ''2025-11-20 08:60'')" "\<not> spec_datetime (strip ''2025-11-20 08:60'')"
    by (simp_all only: out_of_range_samples not_False_eq_True)
  have h6: "map_of row_T_separator ''departure_datetime'' = Some (Some ?T)"
    "parse_iso_datetime ?T = Inl (format_error ?T)"
    by (simp_all add: row_T_separator_def sample_row_def parse_bad_samples)
  have h7: "parse_field row_seconds ''departure_datetime'' =
      Inr \<lparr>year = 2025, month = 11, day = 20, hour = 8, minute = 0\<rparr>"
    "map_of row_seconds ''arrival_datetime'' = Some (Some ?S)"
    "parse_iso_datetime ?S = Inl (format_error ?S)"
    by (simp_all add: row_seconds_def sample_row_def parse_field_def parse_samples
        parse_bad_samples)
  have c1: "parse_iso_datetime ''2025-11-23 07:30'' = Inr ?D"
    using g1 [OF conjI [OF h1] ] by (simp only: strip_samples spec_value_samples)
  have c2: "parse_iso_datetime ''   '' = Inl (ValueError ''empty datetime'')"
    using h2 by (rule g2)
  have c3: "parse_iso_datetime ?T = Inl (format_error ?T)"
    using g3 [OF h3] by (simp only: strip_samples)
  have c4: "parse_iso_datetime ?S = Inl (format_error ?S)"
    using g4 [OF conjI [OF h4(1) conjI [OF h4(2) h4(3)] ] ] by (simp only: strip_samples)
  have c5: "parse_iso_datetime ''0000-01-01 00:00'' = Inl (format_error ''0000-01-01 00:00'')"
    using g5 [OF conjI [OF h5] ] by (simp only: strip_samples)
  note k = parse_iso_datetime_grammar [THEN conjunct2, THEN conjunct2, THEN conjunct2,
      THEN conjunct2, THEN conjunct2, THEN conjunct1, THEN mp]
  have p1: "parse_iso_datetime ''2025-02-30 08:00'' = Inl (format_error ''2025-02-30 08:00'')"
    using g6 [OF conjI [OF o1] ] by (simp only: out_of_range_samples)
  have p2: "parse_iso_datetime ''2025-13-01 08:00'' = Inl (format_error ''2025-13-01 08:00'')"
    using k [OF conjI [OF o2] ] by (simp only: out_of_range_samples)
  have p3: "parse_iso_datetime ''2025-11-20 24:00'' = Inl (format_error ''2025-11-20 24:00'')"
    using k [OF conjI [OF o3] ] by (simp only: out_of_range_samples)
  have p4: "parse_iso_datetime ''2025-11-20 08:60'' = Inl (format_error ''2025-11-20 08:60'')"
    using k [OF conjI [OF o4] ] by (simp only: out_of_range_samples)
  note c7 = g7 [OF c1]
  have c8: "validate_row row_T_separator ''sample'' 2 =
     (None, ''departure_datetime parse error: invalid datetime format (expected '' @
            [CHR 39] @ ''YYYY-MM-DD HH:MM'' @ [CHR 39] @ ''): 2025-11-23T07:30:00'')"
    using g8 [OF conjI [OF row_T_separator_rules conjI [OF h6] ] ]
    by (simp only: strip_samples append.simps)
  have c9: "validate_row row_seconds ''sample'' 3 =
     (None, ''arrival_datetime parse error: invalid datetime format (expected '' @
            [CHR 39] @ ''YYYY-MM-DD HH:MM'' @ [CHR 39] @ ''): 2025-11-23 07:30:00'')"
    using g9 [OF conjI [OF row_seconds_rules conjI [OF h7(1) conjI [OF h7(2) h7(3)] ] ] ]
    by (simp only: strip_samples append.simps)
  show ?thesis
    by (intro conjI) (rule h1 h2 h3 h4 h5 h6 h7 o1 o2 o3 o4 c1 c2 c3 c4 c5 p1 p2 p3 p4 c7 c8 c9
        row_T_separator_rules row_seconds_rules)+
qed

text \<open>
  C4. When the tests of rules 1 to 3 pass and both datetime fields parse, \<open>validate_row\<close> rejects the
  row with \<open>arrival_datetime must be after departure_datetime\<close> if the parsed arrival is
  equal to or earlier than the parsed departure, and does not report that reason if the
  arrival is strictly later; the witness has an arrival one minute after the departure,
  and one equal to it.
\<close>

theorem validate_row_temporal_order:
  assumes "checks_1_to_3 row"
    and "parse_field row ''departure_datetime'' = Inr dep"
    and "parse_field row ''arrival_datetime'' = Inr arr"
  shows "(dt_le arr dep \<longrightarrow>
            validate_row row file lineno =
              (None, ''arrival_datetime must be after departure_datetime'')) \<and>
         (dt_less dep arr \<longrightarrow>
            snd (validate_row row file lineno) \<noteq>
              ''arrival_datetime must be after departure_datetime'')"
  using assms(2,3)
  by (auto simp: validate_row_after_checks [OF assms(1)] dt_not_le [symmetric]
      split: sum.splits)

theorem validate_row_temporal_order_witness:
  "checks_1_to_3 row_one_minute \<and>
   parse_field row_one_minute ''departure_datetime'' =
     Inr \<lparr>year = 2025, month = 11, day = 20, hour = 8, minute = 0\<rparr> \<and>
   parse_field row_one_minute ''arrival_datetime'' =
     Inr \<lparr>year = 2025, month = 11, day = 20, hour = 8, minute = 1\<rparr> \<and>
   dt_less \<lparr>year = 2025, month = 11, day = 20, hour = 8, minute = 0\<rparr>
           \<lparr>year = 2025, month = 11, day = 20, hour = 8, minute = 1\<rparr> \<and>
   snd (validate_row row_one_minute ''sample'' 2) \<noteq>
     ''arrival_datetime must be after departure_datetime'' \<and>
   checks_1_to_3 row_same_time \<and>
   parse_field row_same_time ''arrival_datetime'' =
     Inr \<lparr>year = 2025, month = 11, day = 20, hour = 8, minute = 0\<rparr> \<and>
   dt_le \<lparr>year = 2025, month = 11, day = 20, hour = 8, minute = 0\<rparr>
         \<lparr>year = 2025, month = 11, day = 20, hour = 8, minute = 0\<rparr> \<and>
   validate_row row_same_time ''sample'' 3 =
     (None, ''arrival_datetime must be after departure_datetime'')"
proof -
  let ?d = "\<lparr>year = 2025, month = 11, day = 20, hour = 8, minute = 0\<rparr>"
  let ?a = "\<lparr>year = 2025, month = 11, day = 20, hour = 8, minute = 1\<rparr>"
  have r1: "checks_1_to_3 row_one_minute" and r2: "checks_1_to_3 row_same_time"
    by (rule spec_rules_checks,
        simp add: row_one_minute_def row_same_time_def spec_row_defs text_defs class_defs)+
  have d1: "parse_field row_one_minute ''departure_datetime'' = Inr ?d"
    and a1: "parse_field row_one_minute ''arrival_datetime'' = Inr ?a"
    and d2: "parse_field row_same_time ''departure_datetime'' = Inr ?d"
    and a2: "parse_field row_same_time ''arrival_datetime'' = Inr ?d"
    by (simp_all add: row_one_minute_def row_same_time_def sample_row_def parse_field_def
        parse_samples parse_samples2)
  have lt: "dt_less ?d ?a" and le: "dt_le ?d ?d"
    by (simp_all add: dt_less_def dt_le_def dt_key_def)
  from validate_row_temporal_order [OF r1 d1 a1, of "''sample''" 2] lt
  have 1: "snd (validate_row row_one_minute ''sample'' 2) \<noteq>
      ''arrival_datetime must be after departure_datetime''"
    by blast
  from validate_row_temporal_order [OF r2 d2 a2, of "''sample''" 3] le
  have 2: "validate_row row_same_time ''sample'' 3 =
      (None, ''arrival_datetime must be after departure_datetime'')"
    by blast
  from r1 r2 d1 a1 a2 lt le 1 2 show ?thesis
    by blast
qed

text \<open>
  C5 (the code does not do this). The claim: in every record that \<open>validate_row\<close> accepts
  the price is greater than zero. An accepted row has a price that parses and for which
  \<open>price <= 0\<close> is false (lemma \<open>validate_row_price_rule\<close>), but that is not the
  same: the text \<open>nan\<close> parses as a floating-point number, \<open>nan <= 0\<close> is false, and
  the row is accepted with a price that is not greater than zero.
\<close>

theorem validate_row_accepts_nan_price:
  "validate_row row_nan file lineno =
     (Some (sample_flight ''JFK'' ''2025-11-20 08:00'' ''2025-11-20 11:00'' FNan), []) \<and>
   \<not> float_gt0 FNan"
  by (simp add: row_nan_def sample_row_def sample_flight_def row_defs
      text_defs class_defs digit_char_lits parse_samples py_float_nan)

text \<open>
  C6 (amended). The claim as stated fails for two rows that satisfy every rule of the
  specification. With the datetimes in the year 0000 \<open>validate_row\<close> rejects the row.
  With a departure in the year 0999 it accepts the row, and the departure of the record
  is \<open>999-12-31 23:00\<close>, which is not the trimmed input \<open>0999-12-31 23:00\<close>.
\<close>

theorem validate_row_year_below_1000:
  "spec_valid_row row_year0 \<and>
   validate_row row_year0 ''sample'' 2 =
     (None, ''departure_datetime parse error: invalid datetime format (expected '' @
            [CHR 39] @ ''YYYY-MM-DD HH:MM'' @ [CHR 39] @ ''): 0000-01-01 00:00'') \<and>
   spec_valid_row row_year999 \<and>
   trimmed row_year999 ''departure_datetime'' = ''0999-12-31 23:00'' \<and>
   validate_row row_year999 ''sample'' 2 =
     (Some (sample_flight ''JFK'' ''999-12-31 23:00'' ''1000-01-01 01:00'' price_199_99), [])"
  using row_year0_spec row_year999_spec
  by (simp add: row_year0_def row_year999_def sample_row_def sample_flight_def row_defs
      class_defs text_defs parse_year0 year999_samples format_error_def trimmed_def
      digit_char_lits py_float_199_99 price_199_99_def)

text \<open>
  C6, as the code has it. For every row that satisfies rules 1 to 6 and whose departure
  year is not 0000, \<open>validate_row\<close> succeeds; in the record \<open>flight_id\<close>, \<open>origin\<close> and
  \<open>destination\<close> are the trimmed originals, the two datetime fields are the parsed
  values rendered with \<open>strftime\<close>, and for a datetime of the year 1000 or later that
  rendering is the trimmed input text; the price is the parsed number, greater than
  zero.
\<close>

theorem validate_row_normalizes:
  assumes "spec_valid_row row"
    and "1 \<le> year (spec_datetime_value (trimmed row ''departure_datetime''))"
  shows "\<exists>fl x. validate_row row file lineno = (Some fl, []) \<and>
           map_of fl ''flight_id'' = Some (PStr (trimmed row ''flight_id'')) \<and>
           map_of fl ''origin'' = Some (PStr (trimmed row ''origin'')) \<and>
           map_of fl ''destination'' = Some (PStr (trimmed row ''destination'')) \<and>
           parse_field row ''departure_datetime'' =
             Inr (spec_datetime_value (trimmed row ''departure_datetime'')) \<and>
           map_of fl ''departure_datetime'' =
             Some (PStr (strftime (spec_datetime_value (trimmed row ''departure_datetime'')))) \<and>
           (1000 \<le> year (spec_datetime_value (trimmed row ''departure_datetime'')) \<longrightarrow>
            strftime (spec_datetime_value (trimmed row ''departure_datetime'')) =
              trimmed row ''departure_datetime'') \<and>
           parse_field row ''arrival_datetime'' =
             Inr (spec_datetime_value (trimmed row ''arrival_datetime'')) \<and>
           map_of fl ''arrival_datetime'' =
             Some (PStr (strftime (spec_datetime_value (trimmed row ''arrival_datetime'')))) \<and>
           (1000 \<le> year (spec_datetime_value (trimmed row ''arrival_datetime'')) \<longrightarrow>
            strftime (spec_datetime_value (trimmed row ''arrival_datetime'')) =
              trimmed row ''arrival_datetime'') \<and>
           py_float (trimmed row ''price'') = Inr x \<and> float_gt0 x \<and>
           map_of fl ''price'' = Some (PFloat x)"
proof -
  let ?dep = "trimmed row ''departure_datetime''"
  let ?arr = "trimmed row ''arrival_datetime''"
  from assms(1) have r: "spec_rules_1_to_3 row"
    and sd: "spec_datetime ?dep" and sa: "spec_datetime ?arr"
    and lt: "dt_less (spec_datetime_value ?dep) (spec_datetime_value ?arr)"
    and pr: "spec_price (trimmed row ''price'')"
    by (simp_all add: spec_valid_row_def)
  from r have p: "list_all (spec_present row) REQUIRED_FIELDS"
    by (simp add: spec_rules_1_to_3_def)
  note pres = required_present [OF p]
  from lt assms(2) have ya: "1 \<le> year (spec_datetime_value ?arr)"
    using dt_less_year by fastforce
  have d: "parse_field row ''departure_datetime'' = Inr (spec_datetime_value ?dep)"
    using pres(4) sd assms(2) by (rule parse_field_spec)
  have a: "parse_field row ''arrival_datetime'' = Inr (spec_datetime_value ?arr)"
    using pres(5) sa ya by (rule parse_field_spec)
  from pr obtain x where x: "py_float (trimmed row ''price'') = Inr x" "float_gt0 x"
    by (auto simp: spec_price_def split: sum.splits)
  define fl where "fl = foldl add_extra
          [(''flight_id'', PStr (trimmed row ''flight_id'')),
           (''origin'', PStr (trimmed row ''origin'')),
           (''destination'', PStr (trimmed row ''destination'')),
           (''departure_datetime'', PStr (strftime (spec_datetime_value ?dep))),
           (''arrival_datetime'', PStr (strftime (spec_datetime_value ?arr))),
           (''price'', PFloat x)] row"
  have v: "validate_row row file lineno = (Some fl, [])"
    using lt float_gt0_not_le0 [OF x(2)]
    by (simp add: validate_row_after_rules [OF r] d a x(1) dt_not_le fl_def)
  have m: "map_of fl ''flight_id'' = Some (PStr (trimmed row ''flight_id''))"
    "map_of fl ''origin'' = Some (PStr (trimmed row ''origin''))"
    "map_of fl ''destination'' = Some (PStr (trimmed row ''destination''))"
    "map_of fl ''departure_datetime'' = Some (PStr (strftime (spec_datetime_value ?dep)))"
    "map_of fl ''arrival_datetime'' = Some (PStr (strftime (spec_datetime_value ?arr)))"
    "map_of fl ''price'' = Some (PFloat x)"
    unfolding fl_def by (subst map_of_add_extras; simp)+
  have s: "1000 \<le> year (spec_datetime_value ?dep) \<longrightarrow>
             strftime (spec_datetime_value ?dep) = ?dep"
    "1000 \<le> year (spec_datetime_value ?arr) \<longrightarrow>
             strftime (spec_datetime_value ?arr) = ?arr"
    using strftime_spec_datetime [OF sd] strftime_spec_datetime [OF sa] by blast+
  from v m d a x s show ?thesis
    by blast
qed

theorem validate_row_normalizes_witness:
  "spec_valid_row row_padded \<and>
   1 \<le> year (spec_datetime_value (trimmed row_padded ''departure_datetime'')) \<and>
   1000 \<le> year (spec_datetime_value (trimmed row_padded ''departure_datetime'')) \<and>
   1000 \<le> year (spec_datetime_value (trimmed row_padded ''arrival_datetime'')) \<and>
   (\<exists>fl x. validate_row row_padded ''sample'' 2 = (Some fl, []) \<and>
      map_of fl ''flight_id'' = Some (PStr ''AA100'') \<and>
      map_of fl ''origin'' = Some (PStr ''JFK'') \<and>
      map_of fl ''destination'' = Some (PStr ''LAX'') \<and>
      map_of fl ''departure_datetime'' = Some (PStr ''2025-11-20 08:00'') \<and>
      map_of fl ''arrival_datetime'' = Some (PStr ''2025-11-20 11:00'') \<and>
      map_of fl ''price'' = Some (PFloat x) \<and> float_gt0 x)"
proof -
  have y: "1 \<le> year (spec_datetime_value (trimmed row_padded ''departure_datetime''))"
    and yd: "1000 \<le> year (spec_datetime_value (trimmed row_padded ''departure_datetime''))"
    and ya: "1000 \<le> year (spec_datetime_value (trimmed row_padded ''arrival_datetime''))"
    by (simp_all add: row_padded_trimmed spec_value_samples)
  from validate_row_normalizes [OF row_padded_spec y, of "''sample''" 2]
  obtain fl x where v: "validate_row row_padded ''sample'' 2 = (Some fl, [])"
    and m: "map_of fl ''flight_id'' = Some (PStr (trimmed row_padded ''flight_id''))"
      "map_of fl ''origin'' = Some (PStr (trimmed row_padded ''origin''))"
      "map_of fl ''destination'' = Some (PStr (trimmed row_padded ''destination''))"
      "map_of fl ''departure_datetime'' =
         Some (PStr (strftime (spec_datetime_value (trimmed row_padded ''departure_datetime''))))"
      "map_of fl ''arrival_datetime'' =
         Some (PStr (strftime (spec_datetime_value (trimmed row_padded ''arrival_datetime''))))"
      "map_of fl ''price'' = Some (PFloat x)"
    and i: "1000 \<le> year (spec_datetime_value (trimmed row_padded ''departure_datetime'')) \<longrightarrow>
         strftime (spec_datetime_value (trimmed row_padded ''departure_datetime'')) =
         trimmed row_padded ''departure_datetime''"
      "1000 \<le> year (spec_datetime_value (trimmed row_padded ''arrival_datetime'')) \<longrightarrow>
         strftime (spec_datetime_value (trimmed row_padded ''arrival_datetime'')) =
         trimmed row_padded ''arrival_datetime''"
    and x: "float_gt0 x"
    by blast
  note s = i(1) [THEN mp, OF yd] i(2) [THEN mp, OF ya]
  note s' = s [unfolded row_padded_trimmed]
  from m have "map_of fl ''flight_id'' = Some (PStr ''AA100'')"
    "map_of fl ''origin'' = Some (PStr ''JFK'')"
    "map_of fl ''destination'' = Some (PStr ''LAX'')"
    "map_of fl ''departure_datetime'' = Some (PStr ''2025-11-20 08:00'')"
    "map_of fl ''arrival_datetime'' = Some (PStr ''2025-11-20 11:00'')"
    by (simp_all only: row_padded_trimmed s')
  with v m(6) x row_padded_spec y yd ya show ?thesis
    by blast
qed

text \<open>
  C7. For a query whose \<open>filter\<close> mapping is present, the equality loop keeps exactly the
  records for which every pair matches: the record's field as lowercased text (empty when
  the field is missing) equals the lowercased text of the expected value. The records kept
  are a \<open>filter\<close> of the input, so they keep their order, and \<open>apply_filters\<close> returns
  exactly them when the query has no range clause. In the witness \<open>jfk\<close> matches the
  stored \<open>JFK\<close>, and a filter that matches nothing gives the empty list.
\<close>

theorem apply_filters_equality:
  assumes "map_of q ''filter'' = Some (PDict kvs)"
  shows "filter_items q = Inr kvs \<and>
         eq_filters rp kvs flights =
           filter (\<lambda>f. list_all (\<lambda>kv.
               lower (py_str rp (case map_of f (fst kv) of None \<Rightarrow> PStr [] | Some x \<Rightarrow> x)) =
               lower (py_str rp (snd kv))) kvs) flights \<and>
         (map_of q ''departure_between'' = None \<and> map_of q ''arrival_before'' = None \<and>
          map_of q ''arrival_after'' = None \<longrightarrow>
            apply_filters rp flights q =
              Inr (filter (\<lambda>f. list_all (\<lambda>kv.
                lower (py_str rp (case map_of f (fst kv) of None \<Rightarrow> PStr [] | Some x \<Rightarrow> x)) =
                lower (py_str rp (snd kv))) kvs) flights))"
  using filter_items_dict [OF assms]
  by (simp add: eq_filters_filter field_matches_def apply_filters_def departure_between_def
      arrival_before_def arrival_after_def)

theorem apply_filters_equality_witness:
  "map_of query_jfk ''filter'' = Some (PDict [(''origin'', PStr ''jfk'')]) \<and>
   map_of query_jfk ''departure_between'' = None \<and> map_of query_jfk ''arrival_before'' = None \<and>
   map_of query_jfk ''arrival_after'' = None \<and>
   apply_filters repr_text [flight_AA100, flight_UA400] query_jfk = Inr [flight_AA100] \<and>
   map_of query_lhr ''filter'' = Some (PDict [(''origin'', PStr ''LHR'')]) \<and>
   map_of query_lhr ''departure_between'' = None \<and> map_of query_lhr ''arrival_before'' = None \<and>
   map_of query_lhr ''arrival_after'' = None \<and>
   apply_filters repr_text [flight_AA100, flight_UA400] query_lhr = Inr []"
proof -
  have j: "map_of query_jfk ''filter'' = Some (PDict [(''origin'', PStr ''jfk'')])"
    and jn: "map_of query_jfk ''departure_between'' = None"
      "map_of query_jfk ''arrival_before'' = None" "map_of query_jfk ''arrival_after'' = None"
    by (simp_all add: query_jfk_def)
  have l: "map_of query_lhr ''filter'' = Some (PDict [(''origin'', PStr ''LHR'')])"
    and ln: "map_of query_lhr ''departure_between'' = None"
      "map_of query_lhr ''arrival_before'' = None" "map_of query_lhr ''arrival_after'' = None"
    by (simp_all add: query_lhr_def)
  have o: "map_of flight_AA100 ''origin'' = Some (PStr ''JFK'')"
    "map_of flight_UA400 ''origin'' = Some (PStr ''SFO'')"
    by (simp_all add: flight_AA100_def sample_flight_def flight_UA400_def)
  from apply_filters_equality [OF j, of repr_text "[flight_AA100, flight_UA400]"] jn
  have 1: "apply_filters repr_text [flight_AA100, flight_UA400] query_jfk = Inr [flight_AA100]"
    by (simp add: o py_str_def lower_samples)
  from apply_filters_equality [OF l, of repr_text "[flight_AA100, flight_UA400]"] ln
  have 2: "apply_filters repr_text [flight_AA100, flight_UA400] query_lhr = Inr []"
    by (simp add: o py_str_def lower_samples)
  from j jn l ln 1 2 show ?thesis
    by blast
qed

text \<open>
  C8 (amended). The claim as stated fails for a name that is present but empty: the entry
  carries the placeholder, not the supplied name.
\<close>

theorem run_queries_empty_name:
  "map_of [(''name'', PStr [])] ''name'' = Some (PStr []) \<and>
   run_queries repr_text [] (PList [PDict [(''name'', PStr [])] ]) =
     Inr (PDict [(''queries'',
       PList [PDict [(''name'', PStr ''q1''), (''count'', PInt 0), (''results'', PList [])] ])])"
  by (simp add: run_queries_def result_entry_def query_name_def apply_filters_def
      filter_items_def eq_filters_def departure_between_def arrival_before_def
      arrival_after_def show_nat_1)

text \<open>
  C8, as the code has it. When every query is a dictionary that \<open>apply_filters\<close>
  evaluates without raising, \<open>run_queries\<close> returns one entry per query, in input order;
  entry \<open>i\<close> (counted from 1) carries the supplied name when it is present and truthy, the
  placeholder \<open>q<i>\<close> when the name is absent or falsy (empty text, \<open>None\<close>, zero), the
  number of matched records and the matched records.
\<close>

theorem run_queries_results:
  assumes "list_all2 (\<lambda>x m. \<exists>q. x = PDict q \<and> apply_filters rp flights q = Inr m) qs ms"
  shows "\<exists>rs. run_queries rp flights (PList qs) = Inr (PDict [(''queries'', PList rs)]) \<and>
           length rs = length qs \<and>
           (\<forall>i<length qs. \<forall>q. qs ! i = PDict q \<longrightarrow>
              rs ! i = PDict [(''name'',
                               (case map_of q ''name'' of
                                  None \<Rightarrow> PStr (''q'' @ show_nat (Suc i))
                                | Some v \<Rightarrow> if truthy v then v else PStr (''q'' @ show_nat (Suc i)))),
                              (''count'', PInt (int (length (ms ! i)))),
                              (''results'', PList (map PDict (ms ! i)))])"
proof -
  from run_loop_results [OF assms, of "Suc 0"] obtain rs
    where rs: "run_loop rp flights (Suc 0) qs = Inr rs" "length rs = length qs"
      "\<forall>i<length qs. \<forall>q. qs ! i = PDict q \<longrightarrow> rs ! i = result_entry q (Suc 0 + i) (ms ! i)"
    by blast
  have "run_queries rp flights (PList qs) = Inr (PDict [(''queries'', PList rs)])"
    by (simp add: run_queries_def rs(1))
  with rs(2,3) show ?thesis
    by (auto simp: result_entry_def query_name_def)
qed

theorem run_queries_results_witness:
  "list_all2 (\<lambda>x m. \<exists>q. x = PDict q \<and>
       apply_filters repr_text [flight_AA100, flight_UA400] q = Inr m)
     [PDict query_jfk, PDict query_all] [ [flight_AA100], [flight_AA100, flight_UA400] ] \<and>
   (\<exists>rs. run_queries repr_text [flight_AA100, flight_UA400]
            (PList [PDict query_jfk, PDict query_all]) = Inr (PDict [(''queries'', PList rs)]) \<and>
         length rs = 2 \<and>
         rs ! 0 = PDict [(''name'', PStr ''q1''), (''count'', PInt 1),
                         (''results'', PList [PDict flight_AA100])] \<and>
         rs ! 1 = PDict [(''name'', PStr ''all''), (''count'', PInt 2),
                         (''results'', PList [PDict flight_AA100, PDict flight_UA400])])"
proof -
  have h: "list_all2 (\<lambda>x m. \<exists>q. x = PDict q \<and>
       apply_filters repr_text [flight_AA100, flight_UA400] q = Inr m)
     [PDict query_jfk, PDict query_all] [ [flight_AA100], [flight_AA100, flight_UA400] ]"
    by (simp add: apply_filters_jfk apply_filters_all)
  have n: "map_of query_jfk ''name'' = None" "map_of query_all ''name'' = Some (PStr ''all'')"
    by (simp_all add: query_jfk_def query_all_def)
  from run_queries_results [OF h] obtain rs where
    rs: "run_queries repr_text [flight_AA100, flight_UA400]
            (PList [PDict query_jfk, PDict query_all]) = Inr (PDict [(''queries'', PList rs)])"
      "length rs = length [PDict query_jfk, PDict query_all]"
      "\<forall>i<length [PDict query_jfk, PDict query_all]. \<forall>q.
          [PDict query_jfk, PDict query_all] ! i = PDict q \<longrightarrow>
          rs ! i = PDict [(''name'',
                               (case map_of q ''name'' of
                                  None \<Rightarrow> PStr (''q'' @ show_nat (Suc i))
                                | Some v \<Rightarrow> if truthy v then v else PStr (''q'' @ show_nat (Suc i)))),
                              (''count'', PInt (int (length ([ [flight_AA100], [flight_AA100, flight_UA400] ] ! i)))),
                              (''results'', PList (map PDict ([ [flight_AA100], [flight_AA100, flight_UA400] ] ! i)))]"
    by blast
  from rs(3) [rule_format, of 0 query_jfk] rs(3) [rule_format, of 1 query_all]
  have "rs ! 0 = PDict [(''name'', PStr ''q1''), (''count'', PInt 1),
                         (''results'', PList [PDict flight_AA100])]"
    and "rs ! 1 = PDict [(''name'', PStr ''all''), (''count'', PInt 2),
                         (''results'', PList [PDict flight_AA100, PDict flight_UA400])]"
    by (simp_all add: n show_nat_1)
  with h rs(1,2) show ?thesis
    by auto
qed

text \<open>
  C9. \<open>parse_csv_files\<close> gathers, source after source in input order, the records of the
  accepted rows and one error entry for each rejected row, in line order; a source that
  is not found gives one entry and no record, a source whose reading fails gives one more
  entry after those of its rows, and the batch goes on with the next source. For a source
  read to its end the records and the error entries are as many as its rows.
\<close>

theorem parse_csv_files_batch:
  "parse_csv_files sr fs paths =
     (concat (map (\<lambda>p. spec_source_valid p (fs p)) paths),
      concat (map (\<lambda>p. spec_source_errors sr p (fs p)) paths)) \<and>
   length (spec_source_valid p (Readable rows None)) +
     length (spec_source_errors sr p (Readable rows None)) = length rows \<and>
   length (spec_source_valid p (Readable rows (Some e))) +
     length (spec_source_errors sr p (Readable rows (Some e))) = length rows + 1 \<and>
   spec_source_valid p FileNotFound = [] \<and>
   spec_source_errors sr p FileNotFound = [''file not found: '' @ p]"
proof -
  have "parse_csv_files sr fs paths =
     (concat (map (\<lambda>p. spec_source_valid p (fs p)) paths),
      concat (map (\<lambda>p. spec_source_errors sr p (fs p)) paths))"
    using parse_fold [of sr fs "[]" "[]" paths] by (simp add: parse_csv_files_def)
  moreover have "length (filter (accepted p) (numbered rows)) +
      length (filter (\<lambda>lr. \<not> accepted p lr) (numbered rows)) = length rows"
    using sum_length_filter_compl [of "accepted p" "numbered rows"]
    by (simp add: length_numbered)
  ultimately show ?thesis
    by (simp add: spec_source_valid_def spec_source_errors_def)
qed

theorem parse_csv_files_batch_witness:
  "parse_csv_files show_row_text sample_fs [''flights.csv'', ''missing.csv''] =
     ([flight_AA100],
      [''flights.csv:3: missing required field '' @ [CHR 39] @ ''origin'' @ [CHR 39] @ '' -- <row>'',
       ''flights.csv:4: arrival_datetime must be after departure_datetime -- <row>'',
       ''file not found: missing.csv'']) \<and>
   length [flight_AA100] + 2 = length [row_AA100, row_no_origin, row_arrival_before]"
proof -
  have fs: "sample_fs ''flights.csv'' = Readable [row_AA100, row_no_origin, row_arrival_before] None"
    "sample_fs ''missing.csv'' = FileNotFound"
    by (simp_all add: sample_fs_def)
  have n: "numbered [row_AA100, row_no_origin, row_arrival_before] =
      [(2, row_AA100), (3, row_no_origin), (4, row_arrival_before)]"
    by (simp add: numbered_def upt_rec)
  have a: "accepted p (l, row_AA100)" "\<not> accepted p (l, row_no_origin)"
    "\<not> accepted p (l, row_arrival_before)" for p l
    by (simp_all add: accepted_def validate_row_AA100 validate_row_no_origin
        validate_row_arrival_before)
  from parse_csv_files_batch [of show_row_text sample_fs "[''flights.csv'', ''missing.csv'']"]
  have "parse_csv_files show_row_text sample_fs [''flights.csv'', ''missing.csv''] =
     (concat (map (\<lambda>p. spec_source_valid p (sample_fs p)) [''flights.csv'', ''missing.csv'']),
      concat (map (\<lambda>p. spec_source_errors show_row_text p (sample_fs p))
        [''flights.csv'', ''missing.csv'']))"
    by blast
  then show ?thesis
    by (simp add: fs n a spec_source_valid_def spec_source_errors_def row_error_def
        validate_row_AA100 validate_row_no_origin validate_row_arrival_before
        show_row_text_def show_nat.simps digit_char_lits)
qed

text \<open>
  C10. For every row and source locator \<open>validate_row\<close> returns a pair: a record with the
  empty message, or \<open>None\<close> with a message. The exceptions that the datetime and price
  parsers raise are caught: whenever one of them fails, the result is a rejection.
\<close>

theorem validate_row_returns:
  "((\<exists>fl. validate_row row file lineno = (Some fl, [])) \<or>
    (\<exists>msg. validate_row row file lineno = (None, msg))) \<and>
   (parse_field row ''departure_datetime'' = Inl e1 \<longrightarrow>
      fst (validate_row row file lineno) = None) \<and>
   (parse_field row ''arrival_datetime'' = Inl e2 \<longrightarrow>
      fst (validate_row row file lineno) = None) \<and>
   (py_float (strip (str_of (row_get row ''price'' None))) = Inl e3 \<longrightarrow>
      fst (validate_row row file lineno) = None)"
  by (auto simp: validate_row_def Let_def split: option.splits sum.splits)

theorem validate_row_returns_witness:
  "parse_field row_T_separator ''departure_datetime'' = Inl (format_error ''2025-11-23T07:30:00'') \<and>
   fst (validate_row row_T_separator ''sample'' 2) = None \<and>
   parse_field row_seconds ''arrival_datetime'' = Inl (format_error ''2025-11-23 07:30:00'') \<and>
   fst (validate_row row_seconds ''sample'' 3) = None \<and>
   py_float (strip (str_of (row_get row_bad_price ''price'' None))) =
     Inl (ValueError ''could not convert string to float'') \<and>
   fst (validate_row row_bad_price ''sample'' 4) = None \<and>
   validate_row row_AA100 ''sample'' 5 = (Some flight_AA100, [])"
proof -
  have d: "parse_field row_T_separator ''departure_datetime'' =
      Inl (format_error ''2025-11-23T07:30:00'')"
    by (simp add: row_T_separator_def sample_row_def parse_field_def parse_bad_samples)
  have a: "parse_field row_seconds ''arrival_datetime'' =
      Inl (format_error ''2025-11-23 07:30:00'')"
    by (simp add: row_seconds_def sample_row_def parse_field_def parse_bad_samples)
  have p: "py_float (strip (str_of (row_get row_bad_price ''price'' None))) =
      Inl (ValueError ''could not convert string to float'')"
    by (simp add: row_bad_price_def sample_row_def row_get_def str_of_def text_defs py_float_abc)
  note t = validate_row_returns [THEN conjunct2]
  from d have 1: "fst (validate_row row_T_separator ''sample'' 2) = None"
    by (rule t [THEN conjunct1, THEN mp])
  from a have 2: "fst (validate_row row_seconds ''sample'' 3) = None"
    by (rule t [THEN conjunct2, THEN conjunct1, THEN mp])
  from p have 3: "fst (validate_row row_bad_price ''sample'' 4) = None"
    by (rule t [THEN conjunct2, THEN conjunct2, THEN mp])
  from validate_row_returns [of row_AA100 "''sample''" 5, THEN conjunct1]
  have 4: "validate_row row_AA100 ''sample'' 5 = (Some flight_AA100, [])"
    by (simp add: validate_row_AA100)
  from d a p 1 2 3 4 show ?thesis
    by blast
qed

end
